theory Spec2Isabelle
  imports Complex_Main "HOL-Library.Word"
begin

unbundle bit_operations_syntax

section \<open>Backend: the push endpoint of backend/src/routes/sync.ts\<close>

subsection \<open>Request bodies, as \<open>syncPushSchema\<close> types them\<close>

record project_change =
  pc_id :: string
  pc_name :: string
  pc_description :: "string option"
  pc_createdAt :: int
  pc_isDeleted :: "bool option"

record snippet_change =
  sc_id :: string
  sc_projectId :: string
  sc_code :: string
  sc_language :: string
  sc_description :: "string option"
  sc_source :: "string option"
  sc_contentHash :: "string option"
  sc_createdAt :: int
  sc_isDeleted :: "bool option"

record knowledge_change =
  kc_id :: string
  kc_projectId :: string
  kc_question :: string
  kc_answer :: string
  kc_source :: "string option"
  kc_tags :: "string list option"
  kc_contentHash :: "string option"
  kc_createdAt :: int
  kc_isDeleted :: "bool option"

record push_changes =
  ch_projects :: "project_change list option"
  ch_snippets :: "snippet_change list option"
  ch_knowledge :: "knowledge_change list option"

record push_body =
  deviceId :: string
  lastSyncVersion :: int
  changes :: push_changes

definition MAX_ITEMS_PER_SYNC :: nat where
  "MAX_ITEMS_PER_SYNC = 500"

text \<open>\<open>z.string().min(lo).max(hi)\<close>; an optional field passes when it is absent.\<close>

definition str_len :: "nat \<Rightarrow> nat \<Rightarrow> string \<Rightarrow> bool" where
  "str_len lo hi s = (lo \<le> length s \<and> length s \<le> hi)"

definition optional :: "('a \<Rightarrow> bool) \<Rightarrow> 'a option \<Rightarrow> bool" where
  "optional P v = (case v of None \<Rightarrow> True | Some x \<Rightarrow> P x)"

definition project_schema :: "project_change \<Rightarrow> bool" where
  "project_schema p =
     (str_len 1 50 (pc_id p) \<and> str_len 1 200 (pc_name p)
      \<and> optional (str_len 0 1000) (pc_description p) \<and> 0 \<le> pc_createdAt p)"

definition snippet_schema :: "snippet_change \<Rightarrow> bool" where
  "snippet_schema s =
     (str_len 1 50 (sc_id s) \<and> str_len 1 50 (sc_projectId s)
      \<and> str_len 0 100000 (sc_code s) \<and> str_len 0 50 (sc_language s)
      \<and> optional (str_len 0 500) (sc_description s)
      \<and> optional (str_len 0 200) (sc_source s)
      \<and> optional (str_len 0 100) (sc_contentHash s) \<and> 0 \<le> sc_createdAt s)"

definition knowledge_schema :: "knowledge_change \<Rightarrow> bool" where
  "knowledge_schema k =
     (str_len 1 50 (kc_id k) \<and> str_len 1 50 (kc_projectId k)
      \<and> str_len 1 2000 (kc_question k) \<and> str_len 0 50000 (kc_answer k)
      \<and> optional (str_len 0 200) (kc_source k)
      \<and> optional (\<lambda>ts. length ts \<le> 20 \<and> list_all (str_len 0 50) ts) (kc_tags k)
      \<and> optional (str_len 0 100) (kc_contentHash k) \<and> 0 \<le> kc_createdAt k)"

definition syncPushSchema :: "push_body \<Rightarrow> bool" where
  "syncPushSchema b =
     (str_len 1 100 (deviceId b) \<and> 0 \<le> lastSyncVersion b
      \<and> optional (\<lambda>ps. length ps \<le> MAX_ITEMS_PER_SYNC \<and> list_all project_schema ps)
           (ch_projects (changes b))
      \<and> optional (\<lambda>ss. length ss \<le> MAX_ITEMS_PER_SYNC \<and> list_all snippet_schema ss)
           (ch_snippets (changes b))
      \<and> optional (\<lambda>ks. length ks \<le> MAX_ITEMS_PER_SYNC \<and> list_all knowledge_schema ks)
           (ch_knowledge (changes b)))"

subsection \<open>Tables (the drizzle schema); \<open>id\<close> is the primary key of each\<close>

record project_row =
  pr_id :: string
  pr_userId :: string
  pr_name :: string
  pr_description :: "string option"
  pr_createdAt :: int
  pr_updatedAt :: int
  pr_syncVersion :: int
  pr_isDeleted :: bool

record snippet_row =
  sr_id :: string
  sr_userId :: string
  sr_projectId :: string
  sr_code :: string
  sr_language :: string
  sr_description :: "string option"
  sr_source :: "string option"
  sr_contentHash :: "string option"
  sr_createdAt :: int
  sr_updatedAt :: int
  sr_syncVersion :: int
  sr_isDeleted :: bool

record knowledge_row =
  kr_id :: string
  kr_userId :: string
  kr_projectId :: string
  kr_question :: string
  kr_answer :: string
  kr_source :: "string option"
  kr_tags :: "string list option"
  kr_contentHash :: "string option"
  kr_createdAt :: int
  kr_updatedAt :: int
  kr_syncVersion :: int
  kr_isDeleted :: bool

record sync_session =
  ss_id :: string
  ss_userId :: string
  ss_deviceId :: string
  ss_syncVersion :: "int option"
  ss_lastSyncAt :: int

record database =
  projects :: "string \<rightharpoonup> project_row"
  snippets :: "string \<rightharpoonup> snippet_row"
  knowledge :: "string \<rightharpoonup> knowledge_row"
  syncSessions :: "sync_session list"

text \<open>
  A statement that fails inside \<open>db.transaction\<close> rolls the transaction back and the
  handler's \<open>catch\<close> answers 500. Two failures can come from the statements of the push:
  the primary key of \<open>sync_sessions\<close> when \<open>nanoid()\<close> repeats an id, and PostgreSQL's
  refusal to let one \<open>INSERT ... ON CONFLICT DO UPDATE\<close> touch a row that the same
  statement has already inserted or updated. The foreign keys hold: the authenticated
  user is a row of \<open>users\<close>, and a project that a written snippet or knowledge item
  refers to is a row of \<open>projects\<close> once the projects of the batch are written.
\<close>

datatype db_error = UniqueViolation | CardinalityViolation | InvalidByteSequence

text \<open>
  \<open>insert(...).values(rows).onConflictDoUpdate({target: id, set: ..., where: ...})\<close>:
  each proposed row is inserted when its id is free; on a conflict the existing row is
  updated from the proposed one (\<open>EXCLUDED\<close>) only if it satisfies the \<open>where\<close> clause,
  and is left as it is otherwise. \<open>touched\<close> holds the ids this statement has written.
\<close>

fun onConflictDoUpdate ::
  "('r \<Rightarrow> string) \<Rightarrow> ('r \<Rightarrow> 'r \<Rightarrow> 'r) \<Rightarrow> ('r \<Rightarrow> bool) \<Rightarrow> string list \<Rightarrow> 'r list
     \<Rightarrow> (string \<rightharpoonup> 'r) \<Rightarrow> db_error + (string \<rightharpoonup> 'r)" where
  "onConflictDoUpdate key upd wh touched [] tbl = Inr tbl"
| "onConflictDoUpdate key upd wh touched (x # xs) tbl =
     (case tbl (key x) of
        None \<Rightarrow> onConflictDoUpdate key upd wh (key x # touched) xs (tbl(key x \<mapsto> x))
      | Some r \<Rightarrow>
          if key x \<in> set touched then Inl CardinalityViolation
          else if wh r
            then onConflictDoUpdate key upd wh (key x # touched) xs (tbl(key x \<mapsto> upd r x))
            else onConflictDoUpdate key upd wh touched xs tbl)"

definition project_values :: "string \<Rightarrow> int \<Rightarrow> int \<Rightarrow> project_change \<Rightarrow> project_row" where
  "project_values userId now syncVersion proj =
     \<lparr>pr_id = pc_id proj, pr_userId = userId, pr_name = pc_name proj,
      pr_description = pc_description proj, pr_createdAt = pc_createdAt proj,
      pr_updatedAt = now, pr_syncVersion = syncVersion,
      pr_isDeleted = (case pc_isDeleted proj of None \<Rightarrow> False | Some b \<Rightarrow> b)\<rparr>"

definition project_set :: "project_row \<Rightarrow> project_row \<Rightarrow> project_row" where
  "project_set r excluded =
     r\<lparr>pr_name := pr_name excluded, pr_description := pr_description excluded,
       pr_updatedAt := pr_updatedAt excluded, pr_syncVersion := pr_syncVersion excluded,
       pr_isDeleted := pr_isDeleted excluded\<rparr>"

definition snippet_values :: "string \<Rightarrow> int \<Rightarrow> int \<Rightarrow> snippet_change \<Rightarrow> snippet_row" where
  "snippet_values userId now syncVersion snip =
     \<lparr>sr_id = sc_id snip, sr_userId = userId, sr_projectId = sc_projectId snip,
      sr_code = sc_code snip, sr_language = sc_language snip,
      sr_description = sc_description snip, sr_source = sc_source snip,
      sr_contentHash = sc_contentHash snip, sr_createdAt = sc_createdAt snip,
      sr_updatedAt = now, sr_syncVersion = syncVersion,
      sr_isDeleted = (case sc_isDeleted snip of None \<Rightarrow> False | Some b \<Rightarrow> b)\<rparr>"

definition snippet_set :: "snippet_row \<Rightarrow> snippet_row \<Rightarrow> snippet_row" where
  "snippet_set r excluded =
     r\<lparr>sr_code := sr_code excluded, sr_language := sr_language excluded,
       sr_description := sr_description excluded, sr_source := sr_source excluded,
       sr_contentHash := sr_contentHash excluded, sr_updatedAt := sr_updatedAt excluded,
       sr_syncVersion := sr_syncVersion excluded, sr_isDeleted := sr_isDeleted excluded\<rparr>"

definition knowledge_values :: "string \<Rightarrow> int \<Rightarrow> int \<Rightarrow> knowledge_change \<Rightarrow> knowledge_row" where
  "knowledge_values userId now syncVersion know =
     \<lparr>kr_id = kc_id know, kr_userId = userId, kr_projectId = kc_projectId know,
      kr_question = kc_question know, kr_answer = kc_answer know,
      kr_source = kc_source know, kr_tags = kc_tags know,
      kr_contentHash = kc_contentHash know, kr_createdAt = kc_createdAt know,
      kr_updatedAt = now, kr_syncVersion = syncVersion,
      kr_isDeleted = (case kc_isDeleted know of None \<Rightarrow> False | Some b \<Rightarrow> b)\<rparr>"

definition knowledge_set :: "knowledge_row \<Rightarrow> knowledge_row \<Rightarrow> knowledge_row" where
  "knowledge_set r excluded =
     r\<lparr>kr_question := kr_question excluded, kr_answer := kr_answer excluded,
       kr_source := kr_source excluded, kr_tags := kr_tags excluded,
       kr_contentHash := kr_contentHash excluded, kr_updatedAt := kr_updatedAt excluded,
       kr_syncVersion := kr_syncVersion excluded, kr_isDeleted := kr_isDeleted excluded\<rparr>"

subsection \<open>Project references\<close>

text \<open>\<open>[...new Set(xs)]\<close>: the distinct elements of \<open>xs\<close>, each at its first occurrence.\<close>

fun uniq :: "'a list \<Rightarrow> 'a list \<Rightarrow> 'a list" where
  "uniq seen [] = []"
| "uniq seen (x # xs) = (if x \<in> set seen then uniq seen xs else x # uniq (x # seen) xs)"

definition orEmpty :: "'a list option \<Rightarrow> 'a list" where
  "orEmpty v = (case v of None \<Rightarrow> [] | Some xs \<Rightarrow> xs)"

text \<open>
  \<open>validateProjectOwnership\<close> sends the user id and the project ids to PostgreSQL as text
  parameters of one \<open>SELECT\<close>. PostgreSQL refuses a text value that holds the character
  U+0000: the query then throws, and in the handler the exception reaches the \<open>catch\<close>
  that answers 500.
\<close>

definition has_nul :: "string \<Rightarrow> bool" where
  "has_nul s = (CHR 0x00 \<in> set s)"

definition validateProjectOwnership ::
  "database \<Rightarrow> string \<Rightarrow> string list \<Rightarrow> db_error + (bool \<times> string list)" where
  "validateProjectOwnership db userId projectIds =
     (if projectIds = [] then Inr (True, [])
      else if has_nul userId \<or> list_ex has_nul projectIds then Inl InvalidByteSequence
      else
        let invalidIds =
              filter (\<lambda>i. \<not> (case projects db i of None \<Rightarrow> False
                                | Some p \<Rightarrow> pr_userId p = userId)) projectIds
        in Inr (invalidIds = [], invalidIds))"

definition existingProjectCheck :: "push_changes \<Rightarrow> string list" where
  "existingProjectCheck ch =
     (let projectIdsFromSnippets = map sc_projectId (orEmpty (ch_snippets ch));
          projectIdsFromKnowledge = map kc_projectId (orEmpty (ch_knowledge ch));
          projectIdsFromProjects = map pc_id (orEmpty (ch_projects ch));
          allReferencedProjectIds = uniq [] (projectIdsFromSnippets @ projectIdsFromKnowledge)
      in filter (\<lambda>i. i \<notin> set projectIdsFromProjects) allReferencedProjectIds)"

definition validProjectIds :: "push_changes \<Rightarrow> string set" where
  "validProjectIds ch = set (map pc_id (orEmpty (ch_projects ch)) @ existingProjectCheck ch)"

subsection \<open>The transaction and the handler\<close>

definition version_or_0 :: "int option \<Rightarrow> int" where
  "version_or_0 v = (case v of None \<Rightarrow> 0 | Some n \<Rightarrow> n)"

definition find_session :: "database \<Rightarrow> string \<Rightarrow> string \<Rightarrow> sync_session option" where
  "find_session db userId dev =
     find (\<lambda>s. ss_userId s = userId \<and> ss_deviceId s = dev) (syncSessions db)"

definition push_transaction ::
  "string \<Rightarrow> int \<Rightarrow> string \<Rightarrow> string \<Rightarrow> push_changes \<Rightarrow> database \<Rightarrow> db_error + (int \<times> database)" where
  "push_transaction nanoid now userId dev ch db =
     (case (case find_session db userId dev of
              Some s \<Rightarrow> Inr (s, db)
            | None \<Rightarrow>
                if nanoid \<in> set (map ss_id (syncSessions db)) then Inl UniqueViolation
                else
                  let s = \<lparr>ss_id = nanoid, ss_userId = userId, ss_deviceId = dev,
                           ss_syncVersion = Some 0, ss_lastSyncAt = now\<rparr>
                  in Inr (s, db\<lparr>syncSessions := syncSessions db @ [s]\<rparr>)) of
        Inl e \<Rightarrow> Inl e
      | Inr (session, db1) \<Rightarrow>
          let newSyncVersion = version_or_0 (ss_syncVersion session) + 1 in
          (case (case ch_projects ch of
                   None \<Rightarrow> Inr (projects db1)
                 | Some ps \<Rightarrow>
                     if ps = [] then Inr (projects db1)
                     else onConflictDoUpdate pr_id project_set (\<lambda>r. pr_userId r = userId) []
                            (map (project_values userId now newSyncVersion) ps) (projects db1)) of
             Inl e \<Rightarrow> Inl e
           | Inr projects' \<Rightarrow>
               let validSnippets =
                     filter (\<lambda>s. sc_projectId s \<in> validProjectIds ch) (orEmpty (ch_snippets ch)) in
               (case (if validSnippets = [] then Inr (snippets db1)
                      else onConflictDoUpdate sr_id snippet_set (\<lambda>r. sr_userId r = userId) []
                             (map (snippet_values userId now newSyncVersion) validSnippets)
                             (snippets db1)) of
                  Inl e \<Rightarrow> Inl e
                | Inr snippets' \<Rightarrow>
                    let validKnowledge =
                          filter (\<lambda>k. kc_projectId k \<in> validProjectIds ch)
                            (orEmpty (ch_knowledge ch)) in
                    (case (if validKnowledge = [] then Inr (knowledge db1)
                           else onConflictDoUpdate kr_id knowledge_set (\<lambda>r. kr_userId r = userId) []
                                  (map (knowledge_values userId now newSyncVersion) validKnowledge)
                                  (knowledge db1)) of
                       Inl e \<Rightarrow> Inl e
                     | Inr knowledge' \<Rightarrow>
                         Inr (newSyncVersion,
                              db1\<lparr>projects := projects', snippets := snippets',
                                  knowledge := knowledge',
                                  syncSessions :=
                                    map (\<lambda>s. if ss_id s = ss_id session
                                              then s\<lparr>ss_syncVersion := Some newSyncVersion,
                                                     ss_lastSyncAt := now\<rparr>
                                              else s) (syncSessions db1)\<rparr>)))))"

datatype response =
    Success int
  | InvalidSyncData
  | InvalidProjectReferences "string list"
  | NotAuthenticated
  | SyncFailed


text \<open>
  The handler of \<open>router.post('/push')\<close>, after the rate limiter has let the request
  through. \<open>user\<close> is \<open>authReq.user?.id\<close>, \<open>nanoid\<close> the id that \<open>nanoid()\<close> would
  return and \<open>now\<close> the reading of \<open>new Date()\<close>. The body has the types of the schema;
  \<open>syncPushSchema\<close> checks its bounds.
\<close>

definition push :: "string \<Rightarrow> int \<Rightarrow> string option \<Rightarrow> push_body \<Rightarrow> database \<Rightarrow> response \<times> database" where
  "push nanoid now user body db =
     (case user of
        None \<Rightarrow> (NotAuthenticated, db)
      | Some userId \<Rightarrow>
          if userId = [] then (NotAuthenticated, db)
          else if \<not> syncPushSchema body then (InvalidSyncData, db)
          else
            (case (if existingProjectCheck (changes body) \<noteq> []
                   then validateProjectOwnership db userId (existingProjectCheck (changes body))
                   else Inr (True, [])) of
               Inl e \<Rightarrow> (SyncFailed, db)
             | Inr validation \<Rightarrow>
                 if \<not> fst validation
                 then (InvalidProjectReferences (snd validation), db)
                 else
                   (case push_transaction nanoid now userId (deviceId body) (changes body) db of
                      Inl e \<Rightarrow> (SyncFailed, db)
                    | Inr (v, db') \<Rightarrow> (Success v, db'))))"

subsection \<open>Sequences of pushes and the state they are read against\<close>

record push_request =
  rq_nanoid :: string
  rq_now :: int
  rq_user :: "string option"
  rq_body :: push_body

text \<open>The responses to a list of push requests served one after the other.\<close>

fun run_pushes :: "push_request list \<Rightarrow> database \<Rightarrow> response list" where
  "run_pushes [] db = []"
| "run_pushes (r # rs) db =
     (case push (rq_nanoid r) (rq_now r) (rq_user r) (rq_body r) db of
        (resp, db') \<Rightarrow> resp # run_pushes rs db')"

text \<open>The version the session of a (user, device) pair holds; 0 when there is no session.\<close>

definition session_version :: "database \<Rightarrow> string \<Rightarrow> string \<Rightarrow> int" where
  "session_version db userId dev =
     (case find_session db userId dev of None \<Rightarrow> 0 | Some s \<Rightarrow> version_or_0 (ss_syncVersion s))"

text \<open>The primary key of \<open>sync_sessions\<close>.\<close>

definition sessions_ok :: "database \<Rightarrow> bool" where
  "sessions_ok db = distinct (map ss_id (syncSessions db))"

definition stamp_session :: "string \<Rightarrow> int \<Rightarrow> int \<Rightarrow> sync_session \<Rightarrow> sync_session" where
  "stamp_session sid v now s =
     (if ss_id s = sid then s\<lparr>ss_syncVersion := Some v, ss_lastSyncAt := now\<rparr> else s)"




subsection \<open>Example data\<close>

definition empty_db :: database where
  "empty_db = \<lparr>projects = Map.empty, snippets = Map.empty, knowledge = Map.empty, syncSessions = []\<rparr>"

definition no_changes :: push_changes where
  "no_changes = \<lparr>ch_projects = None, ch_snippets = None, ch_knowledge = None\<rparr>"

definition req :: "string \<Rightarrow> string \<Rightarrow> push_request" where
  "req sid dev = \<lparr>rq_nanoid = sid, rq_now = 1000, rq_user = Some ''alice'',
                 rq_body = \<lparr>deviceId = dev, lastSyncVersion = 0, changes = no_changes\<rparr>\<rparr>"



definition snip :: "string \<Rightarrow> string \<Rightarrow> snippet_change" where
  "snip i p = \<lparr>sc_id = i, sc_projectId = p, sc_code = ''x = 1'', sc_language = ''js'',
     sc_description = None, sc_source = None, sc_contentHash = None, sc_createdAt = 20,
     sc_isDeleted = None\<rparr>"



definition bob_project :: project_row where
  "bob_project = \<lparr>pr_id = ''p1'', pr_userId = ''bob'', pr_name = ''bob notes'',
     pr_description = None, pr_createdAt = 10, pr_updatedAt = 10, pr_syncVersion = 4,
     pr_isDeleted = False\<rparr>"

definition bob_snippet :: snippet_row where
  "bob_snippet = \<lparr>sr_id = ''s1'', sr_userId = ''bob'', sr_projectId = ''p1'', sr_code = ''y = 2'',
     sr_language = ''py'', sr_description = None, sr_source = None, sr_contentHash = None,
     sr_createdAt = 11, sr_updatedAt = 11, sr_syncVersion = 4, sr_isDeleted = False\<rparr>"

definition bob_knowledge :: knowledge_row where
  "bob_knowledge = \<lparr>kr_id = ''k1'', kr_userId = ''bob'', kr_projectId = ''p1'',
     kr_question = ''why'', kr_answer = ''because'', kr_source = None, kr_tags = None,
     kr_contentHash = None, kr_createdAt = 12, kr_updatedAt = 12, kr_syncVersion = 4,
     kr_isDeleted = False\<rparr>"

definition bob_db :: database where
  "bob_db = \<lparr>projects = [''p1'' \<mapsto> bob_project], snippets = [''s1'' \<mapsto> bob_snippet],
     knowledge = [''k1'' \<mapsto> bob_knowledge], syncSessions = []\<rparr>"

definition overwrite_body :: push_body where
  "overwrite_body = \<lparr>deviceId = ''laptop'', lastSyncVersion = 0,
     changes = \<lparr>ch_projects = Some [\<lparr>pc_id = ''p1'', pc_name = ''taken'', pc_description = None,
                                    pc_createdAt = 20, pc_isDeleted = Some True\<rparr>],
                ch_snippets = Some [snip ''s1'' ''p1''],
                ch_knowledge = Some [\<lparr>kc_id = ''k1'', kc_projectId = ''p1'', kc_question = ''q'',
                                     kc_answer = ''a'', kc_source = None, kc_tags = None,
                                     kc_contentHash = None, kc_createdAt = 20,
                                     kc_isDeleted = None\<rparr>]\<rparr>\<rparr>"

section \<open>Extension: cloud sync in storage.js\<close>

subsection \<open>Local data\<close>

text \<open>
  The object stores that hold user data are named by the strings \<open>'projects'\<close>,
  \<open>'snippets'\<close> and \<open>'knowledge'\<close>. A stored object carries its key \<open>id\<close>, the fields the
  sync code reads and writes, and its remaining content. An absent field is \<open>None\<close>.
\<close>

datatype store_name = Projects | Snippets | Knowledge

record item =
  item_id :: string
  updatedAt :: "int option"
  syncStatus :: "string option"
  lastSyncedAt :: "int option"
  payload :: string

record sync_item =
  storeName :: store_name
  operation :: string
  data :: item
  timestamp :: int
  retries :: nat

text \<open>Values kept in the settings store, and JavaScript's truthiness of a value or \<open>null\<close>.\<close>

datatype setting = Bool bool | Num int | Str string

fun truthy :: "setting option \<Rightarrow> bool" where
  "truthy None = False"
| "truthy (Some (Bool b)) = b"
| "truthy (Some (Num n)) = (n \<noteq> 0)"
| "truthy (Some (Str s)) = (s \<noteq> [])"

text \<open>
  The module state: the flag \<open>isSyncing\<close>; the IndexedDB object stores, the sync queue
  (keyed by its auto-incremented \<open>id\<close>, in key order) and the settings store; and the
  \<open>chrome.storage.local\<close> areas \<open>devContextData\<close> and \<open>devContextSettings\<close> that the
  storage functions fall back to when IndexedDB does not open.
\<close>

record client =
  isSyncing :: bool
  stores :: "store_name \<Rightarrow> string \<rightharpoonup> item"
  syncQueue :: "(nat \<times> sync_item) list"
  settings :: "string \<rightharpoonup> setting"
  devContextData :: "store_name \<Rightarrow> item list"
  devContextSettings :: "string \<rightharpoonup> setting"

subsection \<open>The environment of one call\<close>

datatype 'b fetched = Failed string | Response nat 'b

record cloud_data =
  cd_projects :: "item list option"
  cd_snippets :: "item list option"
  cd_knowledge :: "item list option"

text \<open>
  What the platform answers during one call: the reading of \<open>Date.now()\<close>, one value
  standing for the readings taken within the call; whether
  \<open>initDB()\<close> resolves to a database or to \<open>null\<close>; the error, if any, with which a
  settings request, a read or a write of a data store fails, with which
  \<open>database.transaction\<close> on the sync queue throws, and with which the \<open>getAll()\<close>
  request on the sync queue fails; the outcome of \<open>fetchWithTimeout\<close>
  for a queue item (an exception or a status), and for a pull (an exception, or a status
  with the parsed body or the error of \<open>response.json()\<close>).
\<close>

record env =
  dateNow :: int
  initDB :: bool
  getSettingError :: "string \<Rightarrow> string option"
  setSettingError :: "string \<Rightarrow> string option"
  readError :: "store_name \<Rightarrow> string \<Rightarrow> string option"
  writeError :: "store_name \<Rightarrow> string \<Rightarrow> string option"
  queueTxError :: "string option"
  queueReadError :: "string option"
  pushFetch :: "nat \<Rightarrow> sync_item \<Rightarrow> unit fetched"
  pullFetch :: "setting \<Rightarrow> (string + cloud_data) fetched"

definition CLOUD_CONFIG_apiUrl :: string where
  "CLOUD_CONFIG_apiUrl = ''https://devcontext-sync-api.fly.dev/api/v1''"

definition CLOUD_CONFIG_maxRetries :: nat where
  "CLOUD_CONFIG_maxRetries = 3"

text \<open>\<open>response.ok\<close>\<close>

definition ok :: "nat \<Rightarrow> bool" where
  "ok st = (200 \<le> st \<and> st \<le> 299)"

text \<open>A number written out by a template literal or by \<open>toString(radix)\<close>, for a radix
  up to 16; a digit is below the radix.\<close>

definition digit :: "nat \<Rightarrow> char" where
  "digit n = ''0123456789abcdef'' ! (n mod 16)"

function digits :: "nat \<Rightarrow> nat \<Rightarrow> string" where
  "digits radix n =
     (if radix < 2 \<or> n < radix then [digit n]
      else digits radix (n div radix) @ [digit (n mod radix)])"
  by pat_completeness auto
termination
  by (relation "measure (\<lambda>(radix, n). n)") auto

declare digits.simps [simp del]

definition decimal :: "nat \<Rightarrow> string" where
  "decimal n = digits 10 n"

subsection \<open>Storage functions\<close>

definition getSetting :: "env \<Rightarrow> client \<Rightarrow> string \<Rightarrow> string + setting option" where
  "getSetting e c key =
     (case getSettingError e key of
        Some msg \<Rightarrow> Inl msg
      | None \<Rightarrow>
          let v = (if initDB e then settings c key else devContextSettings c key)
          in Inr (if truthy v then v else None))"

definition setSetting :: "env \<Rightarrow> client \<Rightarrow> string \<Rightarrow> setting \<Rightarrow> string + client" where
  "setSetting e c key v =
     (case setSettingError e key of
        Some msg \<Rightarrow> Inl msg
      | None \<Rightarrow>
          if initDB e then Inr (c\<lparr>settings := (settings c)(key \<mapsto> v)\<rparr>)
          else Inr (c\<lparr>devContextSettings := (devContextSettings c)(key \<mapsto> v)\<rparr>))"

definition getById :: "env \<Rightarrow> client \<Rightarrow> store_name \<Rightarrow> string \<Rightarrow> string + item option" where
  "getById e c st i =
     (case readError e st i of
        Some msg \<Rightarrow> Inl msg
      | None \<Rightarrow>
          if initDB e then Inr (stores c st i)
          else Inr (find (\<lambda>x. item_id x = i) (devContextData c st)))"

text \<open>\<open>saveDataDirect\<close> writes to IndexedDB only; without a database it returns at once.\<close>

definition saveDataDirect :: "env \<Rightarrow> client \<Rightarrow> store_name \<Rightarrow> item \<Rightarrow> string + client" where
  "saveDataDirect e c st d =
     (if \<not> initDB e then Inr c
      else case writeError e st (item_id d) of
             Some msg \<Rightarrow> Inl msg
           | None \<Rightarrow> Inr (c\<lparr>stores := (stores c)(st := (stores c st)(item_id d \<mapsto> d))\<rparr>))"

subsection \<open>\<open>processSyncQueue\<close>\<close>

datatype sync_result = SyncMessage nat string | SyncSummary nat nat "string list"

text \<open>
  How the loop over the queue ends: by the \<open>return\<close> of the 401 branch, at the end of
  the items, or not at all. \<open>processSyncQueue\<close> awaits two promises that are resolved in
  \<open>onsuccess\<close> and have neither \<open>onerror\<close> nor \<open>reject\<close>: the one around \<open>getAll()\<close> on
  the queue and the one around \<open>get(item.data.id)\<close> on a data store. When such a request
  fails the promise never settles, and the call stays suspended at that \<open>await\<close>.
\<close>

datatype loop_exit = Return sync_result | Done nat "string list" | Unsettled

definition deleteFromQueue :: "nat \<Rightarrow> client \<Rightarrow> client" where
  "deleteFromQueue k c = c\<lparr>syncQueue := filter (\<lambda>q. fst q \<noteq> k) (syncQueue c)\<rparr>"

text \<open>\<open>Update sync status\<close>: \<open>None\<close> when the awaited \<open>get\<close> never settles.\<close>

definition markSynced :: "env \<Rightarrow> sync_item \<Rightarrow> client \<Rightarrow> client option" where
  "markSynced e it c =
     (if item_id (data it) = [] then Some c
      else
        case readError e (storeName it) (item_id (data it)) of
          Some msg \<Rightarrow> None
        | None \<Rightarrow>
            (case stores c (storeName it) (item_id (data it)) of
               None \<Rightarrow> Some c
             | Some existing \<Rightarrow>
                 Some (c\<lparr>stores := (stores c)(storeName it := (stores c (storeName it))
                         (item_id (data it) \<mapsto>
                            existing\<lparr>syncStatus := Some ''synced'',
                                      lastSyncedAt := Some (dateNow e)\<rparr>))\<rparr>)))"

text \<open>
  The \<open>for\<close> loop over the items that \<open>getAll()\<close> returned. \<open>item.retries++\<close> changes the
  object in \<open>items\<close>, a copy of the stored record; the loop writes to the queue only by
  \<open>delete\<close>. An exception in the body of an iteration is caught there and its message
  joins \<open>errors\<close>.
\<close>

fun process_items ::
  "env \<Rightarrow> (nat \<times> sync_item) list \<Rightarrow> nat \<Rightarrow> string list \<Rightarrow> client \<Rightarrow> loop_exit \<times> client" where
  "process_items e [] synced errors c = (Done synced errors, c)"
| "process_items e ((k, it) # rest) synced errors c =
     (case pushFetch e k it of
        Failed msg \<Rightarrow> process_items e rest synced (errors @ [msg]) c
      | Response st u \<Rightarrow>
          if ok st then
            (case markSynced e it (deleteFromQueue k c) of
               None \<Rightarrow> (Unsettled, deleteFromQueue k c)
             | Some c' \<Rightarrow> process_items e rest (synced + 1) errors c')
          else if st = 401 then
            (case setSetting e c ''cloudSyncEnabled'' (Bool False) of
               Inl msg \<Rightarrow> process_items e rest synced (errors @ [msg]) c
             | Inr c' \<Rightarrow>
                 (Return (SyncMessage synced ''Authentication failed. Please re-login.''), c'))
          else
            let retries' = retries it + 1 in
            if retries' \<ge> CLOUD_CONFIG_maxRetries then
              process_items e rest synced
                (errors @ [''Failed to sync item after '' @ decimal CLOUD_CONFIG_maxRetries
                           @ '' retries''])
                (deleteFromQueue k c)
            else process_items e rest synced errors c)"

text \<open>
  The body of the \<open>try\<close> block. The outcome \<open>None\<close> is a call that never settles,
  \<open>Some (Inl msg)\<close> an exception that leaves the function, \<open>Some (Inr r)\<close> a result.
\<close>

definition sync_body :: "env \<Rightarrow> client \<Rightarrow> (string + sync_result) option \<times> client" where
  "sync_body e c =
     (case queueTxError e of
        Some msg \<Rightarrow> (Some (Inl msg), c)
      | None \<Rightarrow>
          (case queueReadError e of
             Some msg \<Rightarrow> (None, c)
           | None \<Rightarrow>
               let items = syncQueue c in
               (case process_items e items 0 [] c of
                  (Return r, c') \<Rightarrow> (Some (Inr r), c')
                | (Done synced errors, c') \<Rightarrow>
                    (Some (Inr (SyncSummary synced (length items - synced) errors)), c')
                | (Unsettled, c') \<Rightarrow> (None, c'))))"

text \<open>The \<open>finally\<close> block runs when the body has settled, with a result or an exception.\<close>

definition processSyncQueue :: "env \<Rightarrow> client \<Rightarrow> (string + sync_result) option \<times> client" where
  "processSyncQueue e c =
     (if isSyncing c then (Some (Inr (SyncMessage 0 ''Sync already in progress'')), c)
      else
        (case getSetting e c ''isPremium'' of
           Inl msg \<Rightarrow> (Some (Inl msg), c)
         | Inr isPremium \<Rightarrow>
        (case getSetting e c ''cloudSyncEnabled'' of
           Inl msg \<Rightarrow> (Some (Inl msg), c)
         | Inr cloudSyncEnabled \<Rightarrow>
        (case getSetting e c ''cloudAuthToken'' of
           Inl msg \<Rightarrow> (Some (Inl msg), c)
         | Inr authToken \<Rightarrow>
            if \<not> truthy isPremium \<or> \<not> truthy cloudSyncEnabled \<or> \<not> truthy authToken
            then (Some (Inr (SyncMessage 0 ''Cloud sync not enabled'')), c)
            else if CLOUD_CONFIG_apiUrl = []
            then (Some (Inr (SyncMessage 0 ''Cloud API not configured'')), c)
            else if \<not> initDB e
            then (Some (Inr (SyncMessage 0 ''Database not available'')), c)
            else
              (case sync_body e (c\<lparr>isSyncing := True\<rparr>) of
                 (None, c') \<Rightarrow> (None, c')
               | (Some r, c') \<Rightarrow> (Some r, c'\<lparr>isSyncing := False\<rparr>))))))"

text \<open>
  \<open>n\<close> calls of \<open>processSyncQueue\<close>, each made on the state the one before has left;
  a call that never settles leaves the state in which it is suspended.
\<close>

fun sync_cycles :: "nat \<Rightarrow> env \<Rightarrow> client \<Rightarrow> client" where
  "sync_cycles 0 e c = c"
| "sync_cycles (Suc n) e c = sync_cycles n e (snd (processSyncQueue e c))"

subsection \<open>\<open>pullFromCloud\<close>\<close>

datatype pull_result = PullSuccess nat nat nat | PullFailed string

text \<open>\<open>item.updatedAt > (local.updatedAt || 0)\<close>; a comparison with \<open>undefined\<close> is false.\<close>

definition newer :: "item \<Rightarrow> item \<Rightarrow> bool" where
  "newer it local =
     (case updatedAt it of
        None \<Rightarrow> False
      | Some r \<Rightarrow> r > (case updatedAt local of None \<Rightarrow> 0 | Some l \<Rightarrow> if l = 0 then 0 else l))"

definition stamp_synced :: "env \<Rightarrow> item \<Rightarrow> item" where
  "stamp_synced e it = it\<lparr>syncStatus := Some ''synced'', lastSyncedAt := Some (dateNow e)\<rparr>"

text \<open>
  The inner loop over the pulled items of one store. A rejected read or write throws out
  of the loop, to the \<open>catch\<close> of \<open>pullFromCloud\<close>, with the writes made so far in place.
\<close>

fun merge_items ::
  "env \<Rightarrow> store_name \<Rightarrow> item list \<Rightarrow> nat \<Rightarrow> client \<Rightarrow> (string + nat) \<times> client" where
  "merge_items e st [] imported c = (Inr imported, c)"
| "merge_items e st (it # its) imported c =
     (case getById e c st (item_id it) of
        Inl msg \<Rightarrow> (Inl msg, c)
      | Inr local \<Rightarrow>
          if (case local of None \<Rightarrow> True | Some l \<Rightarrow> newer it l) then
            (case saveDataDirect e c st (stamp_synced e it) of
               Inl msg \<Rightarrow> (Inl msg, c)
             | Inr c' \<Rightarrow> merge_items e st its (imported + 1) c')
          else merge_items e st its imported c)"

definition orNone :: "'a list option \<Rightarrow> 'a list" where
  "orNone v = (case v of None \<Rightarrow> [] | Some xs \<Rightarrow> xs)"

text \<open>The \<open>try\<close> block with its \<open>catch\<close>, which turns every exception into a failure result.\<close>

definition pull_body :: "env \<Rightarrow> setting \<Rightarrow> client \<Rightarrow> pull_result \<times> client" where
  "pull_body e lastPullAt c =
     (case pullFetch e lastPullAt of
        Failed msg \<Rightarrow> (PullFailed msg, c)
      | Response st body \<Rightarrow>
          if \<not> ok st then (PullFailed (''HTTP '' @ decimal st), c)
          else
            (case body of
               Inl msg \<Rightarrow> (PullFailed msg, c)
             | Inr cloudData \<Rightarrow>
                 (case merge_items e Projects (orNone (cd_projects cloudData)) 0 c of
                    (Inl msg, c1) \<Rightarrow> (PullFailed msg, c1)
                  | (Inr np, c1) \<Rightarrow>
                 (case merge_items e Snippets (orNone (cd_snippets cloudData)) 0 c1 of
                    (Inl msg, c2) \<Rightarrow> (PullFailed msg, c2)
                  | (Inr ns, c2) \<Rightarrow>
                 (case merge_items e Knowledge (orNone (cd_knowledge cloudData)) 0 c2 of
                    (Inl msg, c3) \<Rightarrow> (PullFailed msg, c3)
                  | (Inr nk, c3) \<Rightarrow>
                 (case setSetting e c3 ''lastCloudPullAt'' (Num (dateNow e)) of
                    Inl msg \<Rightarrow> (PullFailed msg, c3)
                  | Inr c4 \<Rightarrow> (PullSuccess np ns nk, c4)))))))"

definition pullFromCloud :: "env \<Rightarrow> client \<Rightarrow> (string + pull_result) \<times> client" where
  "pullFromCloud e c =
     (if isSyncing c then (Inr (PullFailed ''Sync already in progress''), c)
      else
        (case getSetting e c ''isPremium'' of
           Inl msg \<Rightarrow> (Inl msg, c)
         | Inr isPremium \<Rightarrow>
        (case getSetting e c ''cloudAuthToken'' of
           Inl msg \<Rightarrow> (Inl msg, c)
         | Inr authToken \<Rightarrow>
            if \<not> truthy isPremium \<or> \<not> truthy authToken \<or> CLOUD_CONFIG_apiUrl = []
            then (Inr (PullFailed ''Cloud sync not available''), c)
            else
              (case getSetting e c ''lastCloudPullAt'' of
                 Inl msg \<Rightarrow> (Inl msg, c)
               | Inr v \<Rightarrow>
                   let lastPullAt = (case v of None \<Rightarrow> Num 0 | Some x \<Rightarrow> x) in
                   (case pull_body e lastPullAt (c\<lparr>isSyncing := True\<rparr>) of
                      (r, c') \<Rightarrow> (Inr r, c'\<lparr>isSyncing := False\<rparr>))))))"



text \<open>An environment in which no storage request fails.\<close>

definition quiet :: "env \<Rightarrow> bool" where
  "quiet e = ((\<forall>k. getSettingError e k = None) \<and> (\<forall>k. setSettingError e k = None)
              \<and> (\<forall>s i. readError e s i = None) \<and> (\<forall>s i. writeError e s i = None)
              \<and> queueTxError e = None \<and> queueReadError e = None)"

text \<open>Calls made one after the other, each in its own environment and on the state the
  one before has left.\<close>

datatype call = ProcessSyncQueue env | PullFromCloud env

fun run_calls :: "call list \<Rightarrow> client \<Rightarrow> client" where
  "run_calls [] c = c"
| "run_calls (ProcessSyncQueue e # cs) c = run_calls cs (snd (processSyncQueue e c))"
| "run_calls (PullFromCloud e # cs) c = run_calls cs (snd (pullFromCloud e c))"

subsection \<open>Example data\<close>

definition premium :: "string \<rightharpoonup> setting" where
  "premium = [''isPremium'' \<mapsto> Bool True, ''cloudSyncEnabled'' \<mapsto> Bool True,
              ''cloudAuthToken'' \<mapsto> Str ''token'']"

definition quiet_env :: env where
  "quiet_env = \<lparr>dateNow = 1000, initDB = True, getSettingError = (\<lambda>k. None),
     setSettingError = (\<lambda>k. None), readError = (\<lambda>s i. None), writeError = (\<lambda>s i. None),
     queueTxError = None, queueReadError = None, pushFetch = (\<lambda>k it. Response 500 ()),
     pullFetch = (\<lambda>since. Response 500 (Inl ''no body''))\<rparr>"

definition local_a :: item where
  "local_a = \<lparr>item_id = ''a'', updatedAt = Some 10, syncStatus = Some ''pending'',
     lastSyncedAt = None, payload = ''local a''\<rparr>"

definition local_b :: item where
  "local_b = \<lparr>item_id = ''b'', updatedAt = Some 7, syncStatus = Some ''pending'',
     lastSyncedAt = None, payload = ''local b''\<rparr>"

definition cloud_a :: item where
  "cloud_a = \<lparr>item_id = ''a'', updatedAt = Some 20, syncStatus = None,
     lastSyncedAt = None, payload = ''cloud a''\<rparr>"

definition cloud_b :: item where
  "cloud_b = \<lparr>item_id = ''b'', updatedAt = Some 5, syncStatus = None,
     lastSyncedAt = None, payload = ''cloud b''\<rparr>"

definition cloud_c :: item where
  "cloud_c = \<lparr>item_id = ''c'', updatedAt = Some 1, syncStatus = None,
     lastSyncedAt = None, payload = ''cloud c''\<rparr>"

definition pulled_snippets :: cloud_data where
  "pulled_snippets = \<lparr>cd_projects = None, cd_snippets = Some [cloud_a, cloud_b, cloud_c],
     cd_knowledge = Some []\<rparr>"

definition pull_env :: env where
  "pull_env = quiet_env\<lparr>pullFetch := (\<lambda>since. Response 200 (Inr pulled_snippets))\<rparr>"


definition broken_env :: env where
  "broken_env = quiet_env\<lparr>pushFetch := (\<lambda>k it. Failed ''Request timed out''),
     queueTxError := None\<rparr>"

definition closing_env :: env where
  "closing_env = quiet_env\<lparr>queueTxError := Some ''The database connection is closing''\<rparr>"

definition failing_read_env :: env where
  "failing_read_env = quiet_env\<lparr>queueReadError := Some ''UnknownError''\<rparr>"

definition failing_get_env :: env where
  "failing_get_env = quiet_env\<lparr>pushFetch := (\<lambda>k it. Response 200 ()),
     readError := (\<lambda>s i. if s = Snippets \<and> i = ''a'' then Some ''UnknownError'' else None)\<rparr>"

definition queued :: sync_item where
  "queued = \<lparr>storeName = Snippets, operation = ''upsert'', data = local_a, timestamp = 10,
     retries = 0\<rparr>"

definition idb_client :: client where
  "idb_client = \<lparr>isSyncing = False,
     stores = (\<lambda>s. Map.empty)(Snippets := [''a'' \<mapsto> local_a, ''b'' \<mapsto> local_b]),
     syncQueue = [(1, queued)], settings = premium,
     devContextData = (\<lambda>s. []), devContextSettings = Map.empty\<rparr>"


section \<open>Extension: text functions of storage.js\<close>

subsection \<open>Strings\<close>

text \<open>
  A string is the list of its UTF-16 code units; the model covers the code units below
  256, that is ASCII and Latin-1 text. There, white space (\<open>\s\<close> in a regular
  expression, and what \<open>trim\<close> removes) is tab, line feed, vertical tab, form feed,
  carriage return, space and the no-break space; \<open>toLowerCase\<close> maps \<open>A\<close> to \<open>Z\<close> and
  the Latin-1 capitals to their small letters and keeps every other unit, so it keeps the
  length; a word character (\<open>\w\<close>) is an ASCII letter, a digit or the underscore.
\<close>

definition is_space :: "char \<Rightarrow> bool" where
  "is_space c = (of_char c \<in> {9, 10, 11, 12, 13, 32, 160 :: nat})"

definition lower_char :: "char \<Rightarrow> char" where
  "lower_char c =
     (let n = of_char c :: nat
      in if (65 \<le> n \<and> n \<le> 90) \<or> (192 \<le> n \<and> n \<le> 222 \<and> n \<noteq> 215)
         then char_of (n + 32) else c)"

definition toLowerCase :: "string \<Rightarrow> string" where
  "toLowerCase s = map lower_char s"


definition trim :: "string \<Rightarrow> string" where
  "trim s = rev (dropWhile is_space (rev (dropWhile is_space s)))"

text \<open>\<open>s.replace(/\s+/g, ' ')\<close>: every maximal run of white space becomes one space.\<close>

function collapse_spaces :: "string \<Rightarrow> string" where
  "collapse_spaces [] = []"
| "collapse_spaces (c # cs) =
     (if is_space c then CHR '' '' # collapse_spaces (dropWhile is_space cs)
      else c # collapse_spaces cs)"
  by pat_completeness auto
termination
  by (relation "measure length") (auto simp: length_dropWhile_le le_imp_less_Suc)

text \<open>\<open>s.split(' ')\<close>: the pieces between the occurrences of one character.\<close>

fun split_char :: "char \<Rightarrow> string \<Rightarrow> string list" where
  "split_char sep [] = [Nil]"
| "split_char sep (c # cs) =
     (if c = sep then [] # split_char sep cs
      else (case split_char sep cs of [] \<Rightarrow> [c] # [] | w # ws \<Rightarrow> (c # w) # ws))"




subsection \<open>Content fingerprints\<close>

text \<open>
  \<open>hashContent\<close> on a string. \<open>hash << 5\<close> and \<open>hash & hash\<close> are 32-bit operations and
  the sum in between is exact, so each step is \<open>31 * hash + char\<close> in 32-bit two's
  complement. The result is the signed value in base 16, and the empty string for empty
  content.
\<close>

definition toString16 :: "int \<Rightarrow> string" where
  "toString16 i = (if i < 0 then CHR ''-'' # digits 16 (nat (- i)) else digits 16 (nat i))"

definition hash_step :: "32 word \<Rightarrow> char \<Rightarrow> 32 word" where
  "hash_step hash c = (push_bit 5 hash - hash) + of_nat (of_char c)"

definition hashContent :: "string \<Rightarrow> string" where
  "hashContent content =
     (if content = [] then [] else toString16 (sint (foldl hash_step 0 content)))"

definition normalizeContent :: "string \<Rightarrow> string" where
  "normalizeContent content =
     (if content = [] then [] else collapse_spaces (toLowerCase (trim content)))"

subsection \<open>Jaccard similarity on words\<close>

text \<open>
  The quotient of two set sizes. The source divides in double precision and compares
  with the doubles nearest to 0.8 and 0.85; for sets of fewer than \<open>10^15\<close> words the
  comparison has the outcome of the exact one with 4/5 and 17/20, which is what the model
  computes.
\<close>

definition words_of :: "string \<Rightarrow> string list" where
  "words_of s = uniq [] (filter (\<lambda>w. length w > 2) (split_char CHR '' '' s))"

definition calculateSimilarity :: "string \<Rightarrow> string \<Rightarrow> rat" where
  "calculateSimilarity str1 str2 =
     (if str1 = [] \<or> str2 = [] then 0
      else
        let words1 = words_of str1; words2 = words_of str2 in
        if length words1 = 0 \<or> length words2 = 0 then 0
        else
          let intersection = uniq [] (filter (\<lambda>x. x \<in> set words2) words1);
              union = uniq [] (words1 @ words2)
          in of_nat (length intersection) / of_nat (length union))"

text \<open>\<open>Math.round(x)\<close>: the nearest integer, a tie going up.\<close>

definition Math_round :: "rat \<Rightarrow> int" where
  "Math_round x = \<lfloor>x + 1 / 2\<rfloor>"

subsection \<open>Duplicate detection\<close>

record snippet =
  sn_id :: string
  sn_projectId :: string
  sn_code :: string
  sn_language :: string
  sn_createdAt :: int

record knowledge_item =
  kn_id :: string
  kn_projectId :: string
  kn_question :: string
  kn_answer :: string
  kn_createdAt :: int

text \<open>
  The result object: \<open>{isDuplicate: false}\<close>, or \<open>isDuplicate: true\<close> with \<open>matchType\<close>
  \<open>'exact'\<close> or \<open>'similar'\<close>, the \<open>similarity\<close> in percent of a similar match, and the
  existing item.
\<close>

datatype 'a duplicate = NotDuplicate | Exact 'a | Similar int 'a

fun isDuplicate :: "'a duplicate \<Rightarrow> bool" where
  "isDuplicate NotDuplicate = False"
| "isDuplicate (Exact x) = True"
| "isDuplicate (Similar p x) = True"

fun matchType :: "'a duplicate \<Rightarrow> string option" where
  "matchType NotDuplicate = None"
| "matchType (Exact x) = Some ''exact''"
| "matchType (Similar p x) = Some ''similar''"

text \<open>\<open>getByIndex(store, 'projectId', projectId)\<close> on the records of a store, in key order.\<close>

definition snippets_of :: "snippet list \<Rightarrow> string \<Rightarrow> snippet list" where
  "snippets_of store projectId = filter (\<lambda>s. sn_projectId s = projectId) store"

definition knowledge_of :: "knowledge_item list \<Rightarrow> string \<Rightarrow> knowledge_item list" where
  "knowledge_of store projectId = filter (\<lambda>k. kn_projectId k = projectId) store"

fun scan_snippets :: "string \<Rightarrow> string \<Rightarrow> snippet list \<Rightarrow> snippet duplicate" where
  "scan_snippets normalizedNew hashNew [] = NotDuplicate"
| "scan_snippets normalizedNew hashNew (s # ss) =
     (let normalizedExisting = normalizeContent (sn_code s);
          hashExisting = hashContent normalizedExisting
      in if hashNew = hashExisting then Exact s
         else
           let similarity = calculateSimilarity normalizedNew normalizedExisting
           in if similarity > 8 / 10 then Similar (Math_round (similarity * 100)) s
              else scan_snippets normalizedNew hashNew ss)"

definition findDuplicateSnippet :: "snippet list \<Rightarrow> string \<Rightarrow> string \<Rightarrow> snippet duplicate" where
  "findDuplicateSnippet store code projectId =
     (let normalizedNew = normalizeContent code;
          hashNew = hashContent normalizedNew
      in scan_snippets normalizedNew hashNew (snippets_of store projectId))"

fun scan_knowledge :: "string \<Rightarrow> string \<Rightarrow> knowledge_item list \<Rightarrow> knowledge_item duplicate" where
  "scan_knowledge normalizedAnswer combinedHash [] = NotDuplicate"
| "scan_knowledge normalizedAnswer combinedHash (k # ks) =
     (let existingQuestion = normalizeContent (kn_question k);
          existingAnswer = normalizeContent (kn_answer k);
          existingHash = hashContent (existingQuestion @ existingAnswer)
      in if combinedHash = existingHash then Exact k
         else
           let answerSimilarity = calculateSimilarity normalizedAnswer existingAnswer
           in if answerSimilarity > 85 / 100 then Similar (Math_round (answerSimilarity * 100)) k
              else scan_knowledge normalizedAnswer combinedHash ks)"

definition findDuplicateKnowledge ::
  "knowledge_item list \<Rightarrow> string \<Rightarrow> string \<Rightarrow> string \<Rightarrow> knowledge_item duplicate" where
  "findDuplicateKnowledge store question answer projectId =
     (let normalizedQuestion = normalizeContent question;
          normalizedAnswer = normalizeContent answer;
          combinedHash = hashContent (normalizedQuestion @ normalizedAnswer)
      in scan_knowledge normalizedAnswer combinedHash (knowledge_of store projectId))"

text \<open>The tests that the scan makes on one existing item, named.\<close>

definition exact_snippet :: "string \<Rightarrow> snippet \<Rightarrow> bool" where
  "exact_snippet code s =
     (hashContent (normalizeContent code) = hashContent (normalizeContent (sn_code s)))"

definition snippet_similarity :: "string \<Rightarrow> snippet \<Rightarrow> rat" where
  "snippet_similarity code s =
     calculateSimilarity (normalizeContent code) (normalizeContent (sn_code s))"

definition exact_knowledge :: "string \<Rightarrow> string \<Rightarrow> knowledge_item \<Rightarrow> bool" where
  "exact_knowledge question answer k =
     (hashContent (normalizeContent question @ normalizeContent answer)
        = hashContent (normalizeContent (kn_question k) @ normalizeContent (kn_answer k)))"

definition answer_similarity :: "string \<Rightarrow> knowledge_item \<Rightarrow> rat" where
  "answer_similarity answer k =
     calculateSimilarity (normalizeContent answer) (normalizeContent (kn_answer k))"

text \<open>An existing item stops the scan when it is an exact or a similar match.\<close>

definition snippet_hit :: "string \<Rightarrow> snippet \<Rightarrow> bool" where
  "snippet_hit code s = (exact_snippet code s \<or> snippet_similarity code s > 8 / 10)"

definition knowledge_hit :: "string \<Rightarrow> string \<Rightarrow> knowledge_item \<Rightarrow> bool" where
  "knowledge_hit question answer k =
     (exact_knowledge question answer k \<or> answer_similarity answer k > 85 / 100)"

subsection \<open>Example data\<close>

definition js_snippet :: "string \<Rightarrow> string \<Rightarrow> snippet" where
  "js_snippet i code = \<lparr>sn_id = i, sn_projectId = ''P'', sn_code = code, sn_language = ''js'',
     sn_createdAt = 1\<rparr>"

definition qa :: "string \<Rightarrow> string \<Rightarrow> string \<Rightarrow> knowledge_item" where
  "qa i question answer = \<lparr>kn_id = i, kn_projectId = ''P'', kn_question = question,
     kn_answer = answer, kn_createdAt = 1\<rparr>"

definition one_snippet :: "snippet list" where
  "one_snippet = [js_snippet ''1'' ''const x = 1;'']"

definition two_snippets :: "snippet list" where
  "two_snippets = [js_snippet ''1'' ''abc def ghi jkl mno pqr'', js_snippet ''2'' ''abc def ghi jkl mno'']"

definition four_of_five :: "snippet list" where
  "four_of_five = [js_snippet ''1'' ''aaa bbb ccc ddd eee'']"

definition five_of_six :: "snippet list" where
  "five_of_six = [js_snippet ''1'' ''abc def ghi jkl mno pqr'']"

definition nine_of_ten :: "knowledge_item list" where
  "nine_of_ten = [qa ''1'' ''how'' ''aaa bbb ccc ddd eee fff ggg hhh iii jjj'']"

section \<open>Extension: search scoring in storage.js\<close>






subsection \<open>The reference definition of the specification\<close>





section \<open>VS Code extension: merging match results (ContextMatcher)\<close>

text \<open>
  A \<open>MatchResult\<close> holds the matched item, of which the merge reads the \<open>id\<close>, its
  \<open>type\<close> (\<open>'snippet'\<close> or \<open>'knowledge'\<close>), the \<open>relevanceScore\<close> and the list of
  \<open>matchReasons\<close>. Scores only are compared here, so they are modelled as rationals.
\<close>

datatype result_type = SnippetResult | KnowledgeResult

fun type_name :: "result_type \<Rightarrow> string" where
  "type_name SnippetResult = ''snippet''"
| "type_name KnowledgeResult = ''knowledge''"

record match_reason =
  reason_type :: string
  confidence :: rat
  details :: string

record match_result =
  result_item_id :: string
  result_type :: result_type
  relevanceScore :: rat
  matchReasons :: "match_reason list"

text \<open>The key \<open>`${result.type}:${result.item.id}`\<close>.\<close>

definition key_of :: "match_result \<Rightarrow> string" where
  "key_of result = type_name (result_type result) @ '':'' @ result_item_id result"

text \<open>
  A JavaScript \<open>Map\<close> keeps its keys in the order of their first insertion: \<open>set\<close> on a
  key that is present replaces the value in place, on a new key it appends the entry.
\<close>

fun map_set :: "(string \<times> 'v) list \<Rightarrow> string \<Rightarrow> 'v \<Rightarrow> (string \<times> 'v) list" where
  "map_set [] k v = [(k, v)]"
| "map_set ((k', v') # m) k v = (if k' = k then (k, v) # m else (k', v') # map_set m k v)"

fun dedup_loop ::
  "match_result list \<Rightarrow> (string \<times> match_result) list \<Rightarrow> (string \<times> match_result) list" where
  "dedup_loop [] seen = seen"
| "dedup_loop (result # results) seen =
     (let key = key_of result in
      case map_of seen key of
        None \<Rightarrow> dedup_loop results (map_set seen key result)
      | Some existing \<Rightarrow>
          if relevanceScore result > relevanceScore existing
          then dedup_loop results
                 (map_set seen key
                    (result\<lparr>matchReasons := matchReasons existing @ matchReasons result,
                            relevanceScore := max (relevanceScore result) (relevanceScore existing)\<rparr>))
          else dedup_loop results seen)"

text \<open>\<open>Array.from(seen.values()).sort((a, b) => b.relevanceScore - a.relevanceScore)\<close>:
  a stable sort, highest score first.\<close>

definition deduplicateAndSort :: "match_result list \<Rightarrow> match_result list" where
  "deduplicateAndSort results =
     sort_key (\<lambda>r. - relevanceScore r) (map snd (dedup_loop results []))"

text \<open>What the map holds under one key after one more candidate with that key.\<close>

fun merge_candidate :: "match_result option \<Rightarrow> match_result \<Rightarrow> match_result option" where
  "merge_candidate None result = Some result"
| "merge_candidate (Some existing) result =
     (if relevanceScore result > relevanceScore existing
      then Some (result\<lparr>matchReasons := matchReasons existing @ matchReasons result,
                        relevanceScore := max (relevanceScore result) (relevanceScore existing)\<rparr>)
      else Some existing)"

text \<open>The map's invariant: keys are distinct and each entry sits under its own key.\<close>

definition keyed :: "(string \<times> match_result) list \<Rightarrow> bool" where
  "keyed seen = (distinct (map fst seen) \<and> (\<forall>(k, v)\<in>set seen. key_of v = k))"

subsection \<open>Example data\<close>

definition reason :: "string \<Rightarrow> match_reason" where
  "reason d = \<lparr>reason_type = ''language_match'', confidence = 1, details = d\<rparr>"

definition candidate :: "rat \<Rightarrow> string \<Rightarrow> match_result" where
  "candidate score d = \<lparr>result_item_id = ''k1'', result_type = KnowledgeResult,
     relevanceScore = score, matchReasons = [reason d]\<rparr>"

section \<open>Properties of the push endpoint\<close>

subsection \<open>Rows of other users\<close>

lemma onConflictDoUpdate_keeps:
  "tbl i = Some r \<Longrightarrow> \<not> wh r \<Longrightarrow> onConflictDoUpdate key upd wh touched xs tbl = Inr tbl'
     \<Longrightarrow> tbl' i = Some r"
proof (induction xs arbitrary: touched tbl)
  case Nil
  then show ?case by simp
next
  case (Cons x xs)
  show ?case
  proof (cases "tbl (key x)")
    case None
    with Cons.prems have ne: "key x \<noteq> i" by auto
    from Cons.prems None
    have "onConflictDoUpdate key upd wh (key x # touched) xs (tbl(key x \<mapsto> x)) = Inr tbl'"
      by simp
    moreover have "(tbl(key x \<mapsto> x)) i = Some r" using ne Cons.prems(1) by simp
    ultimately show ?thesis using Cons.IH Cons.prems(2) by blast
  next
    case (Some r')
    show ?thesis
    proof (cases "wh r'")
      case True
      with Some Cons.prems have ne: "key x \<noteq> i" by auto
      from Cons.prems Some True
      have "onConflictDoUpdate key upd wh (key x # touched) xs (tbl(key x \<mapsto> upd r' x)) = Inr tbl'"
        by (simp split: if_splits)
      moreover have "(tbl(key x \<mapsto> upd r' x)) i = Some r" using ne Cons.prems(1) by simp
      ultimately show ?thesis using Cons.IH Cons.prems(2) by blast
    next
      case False
      from Cons.prems Some False
      have "onConflictDoUpdate key upd wh touched xs tbl = Inr tbl'"
        by (simp split: if_splits)
      then show ?thesis using Cons.IH Cons.prems by blast
    qed
  qed
qed

lemma push_transaction_projects:
  assumes "push_transaction nanoid now userId dev ch db = Inr (v, db')"
    and "projects db i = Some p" and "pr_userId p \<noteq> userId"
  shows "projects db' i = Some p"
  using assms
  unfolding push_transaction_def Let_def
  by (auto split: option.splits sum.splits if_splits prod.splits
      dest: onConflictDoUpdate_keeps [where wh = "\<lambda>r. pr_userId r = userId"])

lemma push_transaction_snippets:
  assumes "push_transaction nanoid now userId dev ch db = Inr (v, db')"
    and "snippets db i = Some p" and "sr_userId p \<noteq> userId"
  shows "snippets db' i = Some p"
  using assms
  unfolding push_transaction_def Let_def
  by (auto split: option.splits sum.splits if_splits prod.splits
      dest: onConflictDoUpdate_keeps [where wh = "\<lambda>r. sr_userId r = userId"])

lemma push_transaction_knowledge:
  assumes "push_transaction nanoid now userId dev ch db = Inr (v, db')"
    and "knowledge db i = Some p" and "kr_userId p \<noteq> userId"
  shows "knowledge db' i = Some p"
  using assms
  unfolding push_transaction_def Let_def
  by (auto split: option.splits sum.splits if_splits prod.splits
      dest: onConflictDoUpdate_keeps [where wh = "\<lambda>r. kr_userId r = userId"])

lemma push_cases:
  "push nanoid now user body db = (resp, db') \<Longrightarrow>
     db' = db \<and> (\<forall>v. resp \<noteq> Success v)
     \<or> (\<exists>userId v. user = Some userId \<and> resp = Success v
           \<and> push_transaction nanoid now userId (deviceId body) (changes body) db = Inr (v, db'))"
  unfolding push_def Let_def
  by (auto split: option.splits sum.splits if_splits prod.splits)

text \<open>
  Claim C4. Whatever user \<open>U\<close> pushes, every project, snippet and knowledge row that
  exists before the push and is owned by another user is the same row after the push:
  the update on conflict applies only to rows that \<open>U\<close> owns.
\<close>

theorem push_never_overwrites_other_users:
  "(\<forall>i p. projects db i = Some p \<and> pr_userId p \<noteq> U
       \<longrightarrow> projects (snd (push nanoid now (Some U) body db)) i = Some p)
   \<and> (\<forall>i s. snippets db i = Some s \<and> sr_userId s \<noteq> U
       \<longrightarrow> snippets (snd (push nanoid now (Some U) body db)) i = Some s)
   \<and> (\<forall>i k. knowledge db i = Some k \<and> kr_userId k \<noteq> U
       \<longrightarrow> knowledge (snd (push nanoid now (Some U) body db)) i = Some k)"
proof -
  obtain resp db' where p: "push nanoid now (Some U) body db = (resp, db')"
    by (cases "push nanoid now (Some U) body db")
  from push_cases [OF p] show ?thesis
    unfolding p
    by (auto dest: push_transaction_projects push_transaction_snippets push_transaction_knowledge)
qed

lemmas schema_defs = syncPushSchema_def snippet_schema_def project_schema_def knowledge_schema_def
  str_len_def optional_def MAX_ITEMS_PER_SYNC_def

lemmas push_eval = push_def schema_defs existingProjectCheck_def orEmpty_def
  validateProjectOwnership_def push_transaction_def find_session_def version_or_0_def
  validProjectIds_def Let_def project_values_def snippet_values_def knowledge_values_def
  has_nul_def

text \<open>
  Alice pushes a project, a snippet and a knowledge item under the ids of Bob's rows. The
  push succeeds with version 1 and Bob's three rows are as they were.
\<close>

theorem push_never_overwrites_other_users_witness:
  "fst (push ''sid'' 30 (Some ''alice'') overwrite_body bob_db) = Success 1
   \<and> projects (snd (push ''sid'' 30 (Some ''alice'') overwrite_body bob_db)) ''p1'' = Some bob_project
   \<and> snippets (snd (push ''sid'' 30 (Some ''alice'') overwrite_body bob_db)) ''s1'' = Some bob_snippet
   \<and> knowledge (snd (push ''sid'' 30 (Some ''alice'') overwrite_body bob_db)) ''k1'' = Some bob_knowledge"
proof -
  have ok: "fst (push ''sid'' 30 (Some ''alice'') overwrite_body bob_db) = Success 1"
    by (simp add: push_eval overwrite_body_def bob_db_def snip_def bob_project_def
        bob_snippet_def bob_knowledge_def)
  have p: "projects bob_db ''p1'' = Some bob_project \<and> pr_userId bob_project \<noteq> ''alice''"
    by (simp add: bob_db_def bob_project_def)
  have s: "snippets bob_db ''s1'' = Some bob_snippet \<and> sr_userId bob_snippet \<noteq> ''alice''"
    by (simp add: bob_db_def bob_snippet_def)
  have k: "knowledge bob_db ''k1'' = Some bob_knowledge \<and> kr_userId bob_knowledge \<noteq> ''alice''"
    by (simp add: bob_db_def bob_knowledge_def)
  from push_never_overwrites_other_users [of bob_db "''alice''" "''sid''" 30 overwrite_body] p s k
  show ?thesis using ok by blast
qed

subsection \<open>Invalid project references\<close>








subsection \<open>Sync versions\<close>

lemma find_map:
  "(\<And>x. x \<in> set xs \<Longrightarrow> Q (g x) = Q x) \<Longrightarrow> find Q (map g xs) = map_option g (find Q xs)"
  by (induction xs) auto

lemma find_append_new:
  "find P xs = None \<Longrightarrow> P s \<Longrightarrow> find P (xs @ [s]) = Some s"
  by (induction xs) (auto split: if_splits)

lemma find_append_other:
  "\<not> Q s \<Longrightarrow> find Q (xs @ [s]) = find Q xs"
  by (induction xs) auto

lemma push_transaction_sessions:
  assumes "push_transaction nanoid now u d ch db = Inr (v, db')"
  shows "\<exists>session xs1.
           (find_session db u d = Some session \<and> xs1 = syncSessions db
            \<or> find_session db u d = None \<and> nanoid \<notin> set (map ss_id (syncSessions db))
               \<and> session = \<lparr>ss_id = nanoid, ss_userId = u, ss_deviceId = d,
                              ss_syncVersion = Some 0, ss_lastSyncAt = now\<rparr>
               \<and> xs1 = syncSessions db @ [session])
           \<and> v = version_or_0 (ss_syncVersion session) + 1
           \<and> syncSessions db' = map (stamp_session (ss_id session) v now) xs1"
  using assms
  unfolding push_transaction_def Let_def stamp_session_def
  by (auto split: option.splits sum.splits if_splits prod.splits)

lemma push_transaction_version:
  assumes ok: "sessions_ok db"
    and tx: "push_transaction nanoid now u d ch db = Inr (v, db')"
  shows "sessions_ok db' \<and> v = session_version db u d + 1 \<and> session_version db' u d = v
         \<and> (\<forall>u' d'. (u', d') \<noteq> (u, d) \<longrightarrow> session_version db' u' d' = session_version db u' d')"
proof -
  let ?P = "\<lambda>u d s. ss_userId s = u \<and> ss_deviceId s = d"
  from push_transaction_sessions [OF tx] obtain session xs1 where
    c: "find_session db u d = Some session \<and> xs1 = syncSessions db
        \<or> find_session db u d = None \<and> nanoid \<notin> set (map ss_id (syncSessions db))
           \<and> session = \<lparr>ss_id = nanoid, ss_userId = u, ss_deviceId = d,
                          ss_syncVersion = Some 0, ss_lastSyncAt = now\<rparr>
           \<and> xs1 = syncSessions db @ [session]"
    and v: "v = version_or_0 (ss_syncVersion session) + 1"
    and s': "syncSessions db' = map (stamp_session (ss_id session) v now) xs1"
    by blast
  let ?g = "stamp_session (ss_id session) v now"
  have pres: "\<And>u' d' x. ?P u' d' (?g x) = ?P u' d' x"
    by (simp add: stamp_session_def)
  have d1: "distinct (map ss_id xs1)"
    using c ok by (auto simp: sessions_ok_def)
  have f1: "find (?P u d) xs1 = Some session"
    using c by (auto simp: find_session_def intro: find_append_new)
  then have mem: "session \<in> set xs1" and match: "?P u d session"
    by (auto simp: find_Some_iff)
  have other: "find (?P u' d') xs1 = find (?P u' d') (syncSessions db)"
    if "(u', d') \<noteq> (u, d)" for u' d'
    using c that by (auto simp: find_append_other)
  have "ss_id (?g x) = ss_id x" for x
    by (simp add: stamp_session_def)
  then have idg: "map ss_id (map ?g xs1) = map ss_id xs1"
    by (induction xs1) auto
  have ok': "sessions_ok db'"
    using d1 unfolding sessions_ok_def s' idg .
  have fnd: "find (?P u' d') (syncSessions db') = map_option ?g (find (?P u' d') xs1)" for u' d'
    unfolding s' by (rule find_map) (simp add: pres)
  have v0: "v = session_version db u d + 1"
    using c v by (auto simp: session_version_def version_or_0_def)
  have same: "session_version db' u d = v"
    by (simp add: session_version_def find_session_def fnd f1 stamp_session_def version_or_0_def)
  have oth: "session_version db' u' d' = session_version db u' d'"
    if ne: "(u', d') \<noteq> (u, d)" for u' d'
  proof (cases "find (?P u' d') xs1")
    case None
    then show ?thesis using other [OF ne]
      by (simp add: session_version_def find_session_def fnd)
  next
    case (Some s2)
    then have "s2 \<in> set xs1" "?P u' d' s2" by (auto simp: find_Some_iff)
    with match ne have "s2 \<noteq> session" by auto
    with \<open>s2 \<in> set xs1\<close> mem d1 have "ss_id s2 \<noteq> ss_id session"
      by (meson distinct_map inj_onD)
    then have g2: "?g s2 = s2" by (simp add: stamp_session_def)
    have "find (?P u' d') (syncSessions db') = Some s2"
      by (simp add: fnd Some g2)
    moreover have "find (?P u' d') (syncSessions db) = Some s2"
      using other [OF ne] Some by simp
    ultimately show ?thesis
      by (simp add: session_version_def find_session_def)
  qed
  show ?thesis using ok' v0 same oth by blast
qed

lemma push_version:
  assumes ok: "sessions_ok db"
    and p: "push nanoid now user body db = (resp, db')"
  shows "sessions_ok db'
     \<and> (\<forall>u d. session_version db u d \<le> session_version db' u d)
     \<and> (\<forall>v u. resp = Success v \<and> user = Some u \<longrightarrow>
            session_version db u (deviceId body) < v \<and> session_version db' u (deviceId body) = v)"
proof -
  from push_cases [OF p] show ?thesis
  proof
    assume "db' = db \<and> (\<forall>v. resp \<noteq> Success v)"
    then show ?thesis using ok by simp
  next
    assume "\<exists>userId v. user = Some userId \<and> resp = Success v
           \<and> push_transaction nanoid now userId (deviceId body) (changes body) db = Inr (v, db')"
    then obtain userId v where u: "user = Some userId" and r: "resp = Success v"
      and tx: "push_transaction nanoid now userId (deviceId body) (changes body) db = Inr (v, db')"
      by blast
    note pv = push_transaction_version [OF ok tx]
    have mono: "session_version db u d \<le> session_version db' u d" for u d
    proof (cases "(u, d) = (userId, deviceId body)")
      case True
      then show ?thesis using pv by auto
    next
      case False
      then show ?thesis using pv by auto
    qed
    show ?thesis using pv mono u r by auto
  qed
qed

lemma run_pushes_above:
  assumes "sessions_ok db" and "j < length rs"
    and "rq_user (rs ! j) = Some u" and "run_pushes rs db ! j = Success v"
  shows "session_version db u (deviceId (rq_body (rs ! j))) < v"
  using assms
proof (induction rs arbitrary: db j)
  case Nil
  then show ?case by simp
next
  case (Cons r rs)
  obtain resp db' where p: "push (rq_nanoid r) (rq_now r) (rq_user r) (rq_body r) db = (resp, db')"
    by (cases "push (rq_nanoid r) (rq_now r) (rq_user r) (rq_body r) db")
  note pv = push_version [OF Cons.prems(1) p]
  show ?case
  proof (cases j)
    case 0
    with Cons.prems p pv show ?thesis by auto
  next
    case (Suc k)
    with Cons.prems p have "session_version db' u (deviceId (rq_body (rs ! k))) < v"
      using Cons.IH [of db' k] pv by auto
    moreover have "session_version db u (deviceId (rq_body (rs ! k)))
        \<le> session_version db' u (deviceId (rq_body (rs ! k)))"
      using pv by blast
    ultimately show ?thesis using Suc by simp
  qed
qed

text \<open>
  Claim C3, as stated, fails. Alice's laptop pushes twice and is stamped 1 and then 2; her
  phone then pushes for the first time and is stamped 1, smaller than the 2 stamped by
  the earlier push of the same user.
\<close>

theorem syncVersion_decreases_across_devices:
  "run_pushes [req ''s1'' ''laptop'', req ''s2'' ''laptop'', req ''s3'' ''phone''] empty_db
     = [Success 1, Success 2, Success 1]"
  by (simp add: req_def push_eval no_changes_def empty_db_def)

text \<open>
  Claim C3, amended. The version is counted per (user, device) session: in every sequence
  of pushes served one after the other, in any interleaving of users and devices, two
  successful pushes of the same user from the same device are stamped with strictly
  increasing versions. Nothing orders the versions stamped for different devices of one
  user.
\<close>

theorem syncVersion_increases_per_device:
  assumes "sessions_ok db" and "i < j" and "j < length rs"
    and "rq_user (rs ! i) = Some u" and "rq_user (rs ! j) = Some u"
    and "deviceId (rq_body (rs ! i)) = deviceId (rq_body (rs ! j))"
    and "run_pushes rs db ! i = Success vi" and "run_pushes rs db ! j = Success vj"
  shows "vi < vj"
  using assms
proof (induction rs arbitrary: db i j)
  case Nil
  then show ?case by simp
next
  case (Cons r rs)
  obtain resp db' where p: "push (rq_nanoid r) (rq_now r) (rq_user r) (rq_body r) db = (resp, db')"
    by (cases "push (rq_nanoid r) (rq_now r) (rq_user r) (rq_body r) db")
  note pv = push_version [OF Cons.prems(1) p]
  from Cons.prems(2) obtain k where j: "j = Suc k" by (cases j) auto
  show ?case
  proof (cases i)
    case 0
    with Cons.prems p have "resp = Success vi" "rq_user r = Some u" by auto
    with pv have "session_version db' u (deviceId (rq_body r)) = vi" by blast
    moreover have "session_version db' u (deviceId (rq_body (rs ! k))) < vj"
      using run_pushes_above [of db' k rs u vj] Cons.prems p pv j by auto
    ultimately show ?thesis using Cons.prems(6) 0 j by simp
  next
    case (Suc i')
    show ?thesis
      using Cons.IH [of db' i' k] Cons.prems p pv j Suc by auto
  qed
qed

text \<open>The laptop's first and third push in an interleaving with the phone: 1 and then 2.\<close>

theorem syncVersion_increases_per_device_witness:
  "run_pushes [req ''s1'' ''laptop'', req ''s2'' ''phone'', req ''s3'' ''laptop''] empty_db
     = [Success 1, Success 1, Success 2] \<and> (1::int) < 2"
proof -
  let ?rs = "[req ''s1'' ''laptop'', req ''s2'' ''phone'', req ''s3'' ''laptop'']"
  have run: "run_pushes ?rs empty_db = [Success 1, Success 1, Success 2]"
    by (simp add: req_def push_eval no_changes_def empty_db_def)
  have ok: "sessions_ok empty_db"
    by (simp add: sessions_ok_def empty_db_def)
  have r0: "run_pushes ?rs empty_db ! 0 = Success 1"
    unfolding run by simp
  have r2: "run_pushes ?rs empty_db ! 2 = Success 2"
    unfolding run by simp
  have "(1::int) < 2"
    by (rule syncVersion_increases_per_device [OF ok _ _ _ _ _ r0 r2, of "''alice''"])
       (simp_all add: req_def)
  with run show ?thesis by simp
qed

section \<open>Properties of the extension's cloud sync\<close>

subsection \<open>The merge of pulled data\<close>

lemma stamp_synced_id [simp]: "item_id (stamp_synced e it) = item_id it"
  by (simp add: stamp_synced_def)






lemmas client_eval = pullFromCloud_def getSetting_def setSetting_def getById_def saveDataDirect_def
  pull_body_def orNone_def newer_def stamp_synced_def CLOUD_CONFIG_apiUrl_def ok_def Let_def
  processSyncQueue_def sync_body_def deleteFromQueue_def markSynced_def
  CLOUD_CONFIG_maxRetries_def

lemma quiet_quiet_env: "quiet quiet_env" "quiet pull_env"
  by (simp_all add: quiet_def quiet_env_def pull_env_def)




text \<open>Without IndexedDB a pull changes neither the object stores nor \<open>devContextData\<close>.\<close>

lemma merge_items_without_database:
  "\<not> initDB e \<Longrightarrow> snd (merge_items e st its n c) = c"
  by (induction its arbitrary: n) (auto simp: saveDataDirect_def split: sum.splits option.splits)

lemma pull_without_database_keeps_data:
  assumes "\<not> initDB e"
  shows "stores (snd (pullFromCloud e c)) = stores c"
    and "devContextData (snd (pullFromCloud e c)) = devContextData c"
proof -
  have m: "merge_items e st its n c1 = (r, c2) \<Longrightarrow> c2 = c1" for st its n c1 r c2
    using merge_items_without_database [OF assms, of st its n c1] by simp
  have b: "stores (snd (pull_body e since c1)) = stores c1
         \<and> devContextData (snd (pull_body e since c1)) = devContextData c1" for since c1
    using assms
    by (auto simp: pull_body_def setSetting_def
        split: fetched.splits sum.splits prod.splits option.splits dest!: m)
  have p: "pullFromCloud e c = (r, c') \<Longrightarrow>
             c' = c \<or> (\<exists>since. c' = (snd (pull_body e since (c\<lparr>isSyncing := True\<rparr>)))\<lparr>isSyncing := False\<rparr>)"
    for r c'
    by (auto simp: pullFromCloud_def Let_def split: sum.splits prod.splits if_splits)
      (metis snd_conv)
  obtain r c' where e: "pullFromCloud e c = (r, c')"
    by (cases "pullFromCloud e c")
  from p [OF e] show "stores (snd (pullFromCloud e c)) = stores c"
    using b by (auto simp: e)
  from p [OF e] show "devContextData (snd (pullFromCloud e c)) = devContextData c"
    using b by (auto simp: e)
qed

subsection \<open>Retries of a failed queue item\<close>

lemma process_items_failing:
  assumes "\<And>k it. \<exists>st. pushFetch e k it = Response st () \<and> \<not> ok st \<and> st \<noteq> 401"
    and "\<forall>q\<in>set items. retries (snd q) + 1 < CLOUD_CONFIG_maxRetries"
  shows "process_items e items n errs c = (Done n errs, c)"
  using assms(2)
proof (induction items)
  case Nil
  then show ?case by simp
next
  case (Cons q items)
  obtain k it where q: "q = (k, it)" by (cases q)
  from assms(1) [of k it] obtain st where
    f: "pushFetch e k it = Response st ()" and nok: "\<not> ok st" and n401: "st \<noteq> 401"
    by blast
  from Cons.prems q have r: "\<not> CLOUD_CONFIG_maxRetries \<le> retries it + 1" by auto
  from Cons.prems have "\<forall>q\<in>set items. retries (snd q) + 1 < CLOUD_CONFIG_maxRetries" by simp
  with Cons.IH have "process_items e items n errs c = (Done n errs, c)" by blast
  then show ?case
    using f nok n401 r by (simp add: q Let_def)
qed

lemma isSyncing_reset: "\<not> isSyncing c \<Longrightarrow> c\<lparr>isSyncing := True\<rparr>\<lparr>isSyncing := False\<rparr> = c"
  by (cases c) simp

lemma processSyncQueue_failing:
  assumes "\<not> isSyncing c" and "initDB e" and "quiet e"
    and "truthy (settings c ''isPremium'')" and "truthy (settings c ''cloudSyncEnabled'')"
    and "truthy (settings c ''cloudAuthToken'')"
    and "\<And>k it. \<exists>st. pushFetch e k it = Response st () \<and> \<not> ok st \<and> st \<noteq> 401"
    and "\<forall>q\<in>set (syncQueue c). retries (snd q) = 0"
  shows "processSyncQueue e c = (Some (Inr (SyncSummary 0 (length (syncQueue c)) [])), c)"
proof -
  have "\<forall>q\<in>set (syncQueue c). retries (snd q) + 1 < CLOUD_CONFIG_maxRetries"
    using assms(8) by (simp add: CLOUD_CONFIG_maxRetries_def)
  then have pi: "process_items e (syncQueue c) 0 [] (c\<lparr>isSyncing := True\<rparr>)
                  = (Done 0 [], c\<lparr>isSyncing := True\<rparr>)"
    by (rule process_items_failing [OF assms(7)])
  have "sync_body e (c\<lparr>isSyncing := True\<rparr>)
          = (Some (Inr (SyncSummary 0 (length (syncQueue c)) [])), c\<lparr>isSyncing := True\<rparr>)"
    using assms(3) by (simp add: sync_body_def quiet_def pi)
  then show ?thesis
    using assms(1-6) isSyncing_reset [OF assms(1)]
    by (simp add: processSyncQueue_def getSetting_def quiet_def CLOUD_CONFIG_apiUrl_def)
qed

text \<open>
  Claim C5 against the code. Let sync be enabled and every queue item be as
  \<open>queueForSync\<close> stores it, with \<open>retries = 0\<close>, and let the server answer every push
  with a status that is neither a success nor 401. Then each call of \<open>processSyncQueue\<close>
  leaves the whole state, queue and stored retry counts included, as it found it, and
  reports nothing synced, every item pending and no error: after any number \<open>n\<close> of
  cycles the items are still queued and are sent again. The count that \<open>item.retries++\<close>
  raises lives in the copy that \<open>getAll()\<close> returned and is never stored, so it is 1 in
  every cycle and never reaches the cap of 3.
\<close>

theorem failed_item_is_retried_forever:
  assumes "\<not> isSyncing c" and "initDB e" and "quiet e"
    and "truthy (settings c ''isPremium'')" and "truthy (settings c ''cloudSyncEnabled'')"
    and "truthy (settings c ''cloudAuthToken'')"
    and "\<And>k it. \<exists>st. pushFetch e k it = Response st () \<and> \<not> ok st \<and> st \<noteq> 401"
    and "\<forall>q\<in>set (syncQueue c). retries (snd q) = 0"
  shows "sync_cycles n e c = c
       \<and> processSyncQueue e (sync_cycles n e c)
           = (Some (Inr (SyncSummary 0 (length (syncQueue c)) [])), c)"
proof -
  note one = processSyncQueue_failing [OF assms]
  have "sync_cycles n e c = c"
    by (induction n) (simp_all add: one)
  then show ?thesis by (simp add: one)
qed

theorem failed_item_is_retried_forever_witness:
  "syncQueue idb_client = [(1, queued)] \<and> retries queued = 0
   \<and> pushFetch quiet_env 1 queued = Response 500 ()
   \<and> syncQueue (sync_cycles 5 quiet_env idb_client) = [(1, queued)]
   \<and> fst (processSyncQueue quiet_env (sync_cycles 5 quiet_env idb_client))
       = Some (Inr (SyncSummary 0 1 []))"
proof -
  have h1: "\<not> isSyncing idb_client" and h2: "initDB quiet_env"
    and h4: "truthy (settings idb_client ''isPremium'')"
    and h5: "truthy (settings idb_client ''cloudSyncEnabled'')"
    and h6: "truthy (settings idb_client ''cloudAuthToken'')"
    and h7: "\<And>k it. \<exists>st. pushFetch quiet_env k it = Response st () \<and> \<not> ok st \<and> st \<noteq> 401"
    and h8: "\<forall>q\<in>set (syncQueue idb_client). retries (snd q) = 0"
    by (simp_all add: idb_client_def quiet_env_def premium_def ok_def queued_def)
  note th = failed_item_is_retried_forever [OF h1 h2 quiet_quiet_env(1) h4 h5 h6 h7 h8, of 5]
  have q: "syncQueue idb_client = [(1, queued)]"
    by (simp add: idb_client_def)
  have c: "sync_cycles 5 quiet_env idb_client = idb_client"
    using th by blast
  have "processSyncQueue quiet_env (sync_cycles 5 quiet_env idb_client)
          = (Some (Inr (SyncSummary 0 (length (syncQueue idb_client)) [])), idb_client)"
    using th by blast
  then have r: "fst (processSyncQueue quiet_env (sync_cycles 5 quiet_env idb_client))
             = Some (Inr (SyncSummary 0 1 []))"
    by (simp add: q)
  have f: "pushFetch quiet_env 1 queued = Response 500 ()"
    by (simp add: quiet_env_def)
  show ?thesis
    using q c r f by (simp add: queued_def)
qed

subsection \<open>The \<open>isSyncing\<close> guard\<close>

text \<open>A call that finds the flag set answers at once and leaves the state as it is.\<close>

lemma in_progress:
  assumes "isSyncing c"
  shows "processSyncQueue e c = (Some (Inr (SyncMessage 0 ''Sync already in progress'')), c)"
    and "pullFromCloud e c = (Inr (PullFailed ''Sync already in progress''), c)"
  using assms by (simp_all add: processSyncQueue_def pullFromCloud_def)

lemma run_calls_in_progress: "isSyncing c \<Longrightarrow> run_calls calls c = c"
proof (induction calls)
  case Nil
  then show ?case by simp
next
  case (Cons x calls)
  then show ?case
    by (cases x) (simp_all add: in_progress)
qed

text \<open>A call that finds the flag clear and settles, and every pull, returns with it clear.\<close>

lemma settled_call_releases:
  assumes "\<not> isSyncing c"
  shows "fst (processSyncQueue e c) \<noteq> None \<Longrightarrow> \<not> isSyncing (snd (processSyncQueue e c))"
    and "\<not> isSyncing (snd (pullFromCloud e c))"
  using assms
  by (auto simp: processSyncQueue_def pullFromCloud_def Let_def
      split: sum.splits prod.splits option.splits if_splits)

text \<open>
  Claim C10 against the code. Let sync be enabled, IndexedDB be open and the flag be
  clear, and let the \<open>getAll()\<close> request on the sync queue fail. The promise that
  \<open>processSyncQueue\<close> awaits has no \<open>onerror\<close>, so it never settles: the call never
  returns, its \<open>finally\<close> never runs and \<open>isSyncing\<close> stays \<open>true\<close>. From then on the state
  does not change whatever calls follow, and every later \<open>processSyncQueue\<close> and
  \<open>pullFromCloud\<close> answers "Sync already in progress", in every environment.
\<close>

theorem unsettled_queue_read_leaves_isSyncing_set:
  assumes "\<not> isSyncing c" and "initDB e" and "\<forall>k. getSettingError e k = None"
    and "truthy (settings c ''isPremium'')" and "truthy (settings c ''cloudSyncEnabled'')"
    and "truthy (settings c ''cloudAuthToken'')"
    and "queueTxError e = None" and "queueReadError e = Some msg"
  shows "processSyncQueue e c = (None, c\<lparr>isSyncing := True\<rparr>)
       \<and> run_calls calls (snd (processSyncQueue e c)) = c\<lparr>isSyncing := True\<rparr>
       \<and> processSyncQueue e' (run_calls calls (snd (processSyncQueue e c)))
           = (Some (Inr (SyncMessage 0 ''Sync already in progress'')), c\<lparr>isSyncing := True\<rparr>)
       \<and> pullFromCloud e' (run_calls calls (snd (processSyncQueue e c)))
           = (Inr (PullFailed ''Sync already in progress''), c\<lparr>isSyncing := True\<rparr>)"
proof -
  have b: "sync_body e (c\<lparr>isSyncing := True\<rparr>) = (None, c\<lparr>isSyncing := True\<rparr>)"
    using assms(7,8) by (simp add: sync_body_def)
  have p: "processSyncQueue e c = (None, c\<lparr>isSyncing := True\<rparr>)"
    using assms(1-6)
    by (simp add: processSyncQueue_def getSetting_def CLOUD_CONFIG_apiUrl_def b)
  have s: "isSyncing (c\<lparr>isSyncing := True\<rparr>)" by simp
  have r: "run_calls calls (snd (processSyncQueue e c)) = c\<lparr>isSyncing := True\<rparr>"
    by (simp only: p snd_conv run_calls_in_progress [OF s])
  show ?thesis
    using p r in_progress [OF s] by simp
qed

text \<open>
  One failed read of the queue, then an attempt to sync and to pull in an environment
  where nothing fails: both are refused. A failed \<open>get\<close> of the record of a pushed item
  also leaves the call suspended with the flag set, after the item has left the queue.
\<close>

theorem unsettled_queue_read_leaves_isSyncing_set_witness:
  "\<not> isSyncing idb_client
   \<and> processSyncQueue failing_read_env idb_client = (None, idb_client\<lparr>isSyncing := True\<rparr>)
   \<and> processSyncQueue pull_env
        (run_calls [ProcessSyncQueue quiet_env, PullFromCloud pull_env]
           (snd (processSyncQueue failing_read_env idb_client)))
       = (Some (Inr (SyncMessage 0 ''Sync already in progress'')), idb_client\<lparr>isSyncing := True\<rparr>)
   \<and> pullFromCloud pull_env
        (run_calls [ProcessSyncQueue quiet_env, PullFromCloud pull_env]
           (snd (processSyncQueue failing_read_env idb_client)))
       = (Inr (PullFailed ''Sync already in progress''), idb_client\<lparr>isSyncing := True\<rparr>)
   \<and> processSyncQueue failing_get_env idb_client
       = (None, idb_client\<lparr>isSyncing := True, syncQueue := []\<rparr>)"
proof -
  have h1: "\<not> isSyncing idb_client" and h2: "initDB failing_read_env"
    and h3: "\<forall>k. getSettingError failing_read_env k = None"
    and h4: "truthy (settings idb_client ''isPremium'')"
    and h5: "truthy (settings idb_client ''cloudSyncEnabled'')"
    and h6: "truthy (settings idb_client ''cloudAuthToken'')"
    and h7: "queueTxError failing_read_env = None"
    and h8: "queueReadError failing_read_env = Some ''UnknownError''"
    by (simp_all add: idb_client_def failing_read_env_def quiet_env_def premium_def)
  note th = unsettled_queue_read_leaves_isSyncing_set [OF h1 h2 h3 h4 h5 h6 h7 h8,
      of "[ProcessSyncQueue quiet_env, PullFromCloud pull_env]" pull_env]
  have g: "processSyncQueue failing_get_env idb_client
       = (None, idb_client\<lparr>isSyncing := True, syncQueue := []\<rparr>)"
    by (simp add: client_eval failing_get_env_def quiet_env_def idb_client_def premium_def
        queued_def local_a_def)
  show ?thesis using th h1 g by blast
qed

section \<open>Properties of duplicate detection\<close>

lemma scan_snippets_find:
  "scan_snippets (normalizeContent code) (hashContent (normalizeContent code)) ss =
     (case find (snippet_hit code) ss of
        None \<Rightarrow> NotDuplicate
      | Some t \<Rightarrow> if exact_snippet code t then Exact t
                  else Similar (Math_round (snippet_similarity code t * 100)) t)"
  by (induction ss)
     (auto simp: Let_def snippet_hit_def exact_snippet_def snippet_similarity_def)

lemma scan_knowledge_find:
  "scan_knowledge (normalizeContent answer)
      (hashContent (normalizeContent question @ normalizeContent answer)) ks =
     (case find (knowledge_hit question answer) ks of
        None \<Rightarrow> NotDuplicate
      | Some t \<Rightarrow> if exact_knowledge question answer t then Exact t
                  else Similar (Math_round (answer_similarity answer t * 100)) t)"
  by (induction ks)
     (auto simp: Let_def knowledge_hit_def exact_knowledge_def answer_similarity_def)

lemma find_first:
  "find P xs = Some t \<Longrightarrow> \<forall>x\<in>set xs. \<not> Q x \<Longrightarrow> find (\<lambda>x. Q x \<or> P x) xs = Some t"
  by (induction xs) (auto split: if_splits)

lemma find_none: "\<forall>x\<in>set xs. \<not> P x \<Longrightarrow> find P xs = None"
  by (induction xs) auto

lemma find_takeWhile:
  "x \<in> set xs \<Longrightarrow> Q x \<Longrightarrow> \<forall>y\<in>set (takeWhile (\<lambda>y. \<not> Q y) xs). \<not> P y
     \<Longrightarrow> \<exists>t. find (\<lambda>y. Q y \<or> P y) xs = Some t \<and> Q t \<and> t \<in> set xs"
  by (induction xs) (auto split: if_splits)

lemma find_some_exists: "x \<in> set xs \<Longrightarrow> P x \<Longrightarrow> \<exists>t. find P xs = Some t \<and> P t"
  by (induction xs) auto

lemma norm_examples:
  "normalizeContent ''aaa bbb ccc ddd'' = ''aaa bbb ccc ddd''"
  "normalizeContent ''aaa bbb ccc ddd eee'' = ''aaa bbb ccc ddd eee''"
  "normalizeContent ''abc def ghi jkl mno'' = ''abc def ghi jkl mno''"
  "normalizeContent ''abc def ghi jkl mno pqr'' = ''abc def ghi jkl mno pqr''"
  "normalizeContent ''how'' = ''how''"
  "normalizeContent ''aaa bbb ccc ddd eee fff ggg hhh iii'' = ''aaa bbb ccc ddd eee fff ggg hhh iii''"
  "normalizeContent ''aaa bbb ccc ddd eee fff ggg hhh iii jjj''
     = ''aaa bbb ccc ddd eee fff ggg hhh iii jjj''"
  by code_simp+

lemmas hash_eval = hashContent_def hash_step_def toString16_def digits.simps digit_def

lemmas similarity_eval = calculateSimilarity_def words_of_def Let_def

text \<open>
  Claim C6, as stated, fails. The project holds, in scan order, a snippet with code
  \<open>abc def ghi jkl mno pqr\<close> and one with code \<open>abc def ghi jkl mno\<close>. Saving
  \<open>"  ABC  def ghi jkl mno "\<close>, equal to the second after normalization, reports a
  similar match of 83 percent with the first: the scan stops at the first snippet that
  matches in either way.
\<close>

theorem identical_content_reported_similar:
  "normalizeContent ''  ABC  def ghi jkl mno '' = normalizeContent (sn_code (js_snippet ''2'' ''abc def ghi jkl mno''))
   \<and> js_snippet ''2'' ''abc def ghi jkl mno'' \<in> set (snippets_of two_snippets ''P'')
   \<and> findDuplicateSnippet two_snippets ''  ABC  def ghi jkl mno '' ''P''
       = Similar 83 (js_snippet ''1'' ''abc def ghi jkl mno pqr'')
   \<and> matchType (findDuplicateSnippet two_snippets ''  ABC  def ghi jkl mno '' ''P'') = Some ''similar''"
proof -
  have n: "normalizeContent ''  ABC  def ghi jkl mno '' = ''abc def ghi jkl mno''"
    "normalizeContent ''abc def ghi jkl mno'' = ''abc def ghi jkl mno''"
    "normalizeContent ''abc def ghi jkl mno pqr'' = ''abc def ghi jkl mno pqr''"
    by code_simp+
  have h: "hashContent ''abc def ghi jkl mno'' \<noteq> hashContent ''abc def ghi jkl mno pqr''"
    by (simp add: hashContent_def hash_step_def toString16_def digits.simps digit_def)
  have s: "calculateSimilarity ''abc def ghi jkl mno'' ''abc def ghi jkl mno pqr'' = 5 / 6"
    by (simp add: calculateSimilarity_def words_of_def Let_def)
  have r: "Math_round (250 / 3) = 83"
    by (simp add: Math_round_def floor_eq_iff)
  have f: "findDuplicateSnippet two_snippets ''  ABC  def ghi jkl mno '' ''P''
       = Similar 83 (js_snippet ''1'' ''abc def ghi jkl mno pqr'')"
    using h by (simp add: findDuplicateSnippet_def snippets_of_def two_snippets_def js_snippet_def n s r
        Let_def)
  show ?thesis
    by (simp add: f) (simp add: js_snippet_def n snippets_of_def two_snippets_def)
qed

text \<open>
  Claim C6, amended. When the project holds a snippet whose code equals the new code after
  normalization, the check reports \<open>isDuplicate: true\<close>. The match type is \<open>'exact'\<close>
  provided that no snippet of the project that the scan meets before its first exact
  match has a similarity above 0.8 to the new code; such a snippet is reported instead,
  as a similar match.
\<close>

theorem identical_content_is_a_duplicate:
  assumes "s \<in> set (snippets_of store P)"
    and "normalizeContent (sn_code s) = normalizeContent code"
  shows "isDuplicate (findDuplicateSnippet store code P)
       \<and> ((\<forall>t\<in>set (takeWhile (\<lambda>t. \<not> exact_snippet code t) (snippets_of store P)).
              \<not> snippet_similarity code t > 8 / 10)
           \<longrightarrow> matchType (findDuplicateSnippet store code P) = Some ''exact'')"
proof -
  let ?ss = "snippets_of store P"
  have ex: "exact_snippet code s"
    using assms(2) by (simp add: exact_snippet_def)
  have r: "findDuplicateSnippet store code P =
     (case find (snippet_hit code) ?ss of
        None \<Rightarrow> NotDuplicate
      | Some t \<Rightarrow> if exact_snippet code t then Exact t
                  else Similar (Math_round (snippet_similarity code t * 100)) t)"
    by (simp add: findDuplicateSnippet_def Let_def scan_snippets_find)
  from find_some_exists [of s ?ss "snippet_hit code"] assms(1) ex
  obtain t where "find (snippet_hit code) ?ss = Some t"
    by (auto simp: snippet_hit_def)
  then have d: "isDuplicate (findDuplicateSnippet store code P)"
    by (simp add: r)
  have m: "matchType (findDuplicateSnippet store code P) = Some ''exact''"
    if "\<forall>t\<in>set (takeWhile (\<lambda>t. \<not> exact_snippet code t) ?ss). \<not> snippet_similarity code t > 8 / 10"
  proof -
    from find_takeWhile [OF assms(1) ex that]
    obtain t where "find (snippet_hit code) ?ss = Some t" and "exact_snippet code t"
      unfolding snippet_hit_def by blast
    then show ?thesis
      by (simp add: r)
  qed
  show ?thesis using d m by blast
qed

text \<open>The scenario of the specification: \<open>"   const   x = 1;  "\<close> against \<open>"const x = 1;"\<close>.\<close>

theorem identical_content_is_a_duplicate_witness:
  "normalizeContent ''   const   x = 1;  '' = normalizeContent ''const x = 1;''
   \<and> findDuplicateSnippet one_snippet ''   const   x = 1;  '' ''P''
       = Exact (js_snippet ''1'' ''const x = 1;'')
   \<and> isDuplicate (findDuplicateSnippet one_snippet ''   const   x = 1;  '' ''P'')
   \<and> matchType (findDuplicateSnippet one_snippet ''   const   x = 1;  '' ''P'') = Some ''exact''"
proof -
  let ?s = "js_snippet ''1'' ''const x = 1;''"
  have n: "normalizeContent ''   const   x = 1;  '' = ''const x = 1;''"
    "normalizeContent ''const x = 1;'' = ''const x = 1;''"
    by code_simp+
  have m: "?s \<in> set (snippets_of one_snippet ''P'')"
    by (simp add: snippets_of_def one_snippet_def js_snippet_def)
  have e: "normalizeContent (sn_code ?s) = normalizeContent ''   const   x = 1;  ''"
    by (simp add: js_snippet_def n)
  have t: "takeWhile (\<lambda>t. \<not> exact_snippet ''   const   x = 1;  '' t) (snippets_of one_snippet ''P'') = []"
    by (simp add: snippets_of_def one_snippet_def js_snippet_def exact_snippet_def n)
  have f: "findDuplicateSnippet one_snippet ''   const   x = 1;  '' ''P'' = Exact ?s"
    by (simp add: findDuplicateSnippet_def snippets_of_def one_snippet_def js_snippet_def n Let_def)
  from identical_content_is_a_duplicate [OF m e] t f n show ?thesis by simp
qed

text \<open>A snippet above 0.8 that the scan meets before any exact match is the one reported.\<close>

lemma earlier_similar_snippet_is_reported:
  assumes "t \<in> set (takeWhile (\<lambda>t. \<not> exact_snippet code t) (snippets_of store P))"
    and "snippet_similarity code t > 8 / 10"
  shows "matchType (findDuplicateSnippet store code P) = Some ''similar''"
proof -
  have "\<exists>u. find (snippet_hit code) ss = Some u \<and> \<not> exact_snippet code u"
    if "t \<in> set (takeWhile (\<lambda>t. \<not> exact_snippet code t) ss)" for ss
    using that assms(2)
    by (induction ss) (auto simp: snippet_hit_def split: if_splits)
  from this [OF assms(1)] show ?thesis
    by (auto simp: findDuplicateSnippet_def Let_def scan_snippets_find)
qed

text \<open>
  Claim C7, as stated, fails at the threshold. The new code \<open>aaa bbb ccc ddd\<close> and the
  only snippet of the project, \<open>aaa bbb ccc ddd eee\<close>, share 4 of 5 words: the
  similarity is 0.8, at the threshold, and the check reports no duplicate, because the
  test is \<open>similarity > 0.8\<close>.
\<close>

theorem similarity_at_threshold_not_duplicate:
  "snippets_of four_of_five ''P'' = [js_snippet ''1'' ''aaa bbb ccc ddd eee'']
   \<and> \<not> exact_snippet ''aaa bbb ccc ddd'' (js_snippet ''1'' ''aaa bbb ccc ddd eee'')
   \<and> snippet_similarity ''aaa bbb ccc ddd'' (js_snippet ''1'' ''aaa bbb ccc ddd eee'') = 8 / 10
   \<and> findDuplicateSnippet four_of_five ''aaa bbb ccc ddd'' ''P'' = NotDuplicate"
proof -
  have e: "\<not> exact_snippet ''aaa bbb ccc ddd'' (js_snippet ''1'' ''aaa bbb ccc ddd eee'')"
    by (simp add: exact_snippet_def js_snippet_def norm_examples hash_eval)
  have s: "snippet_similarity ''aaa bbb ccc ddd'' (js_snippet ''1'' ''aaa bbb ccc ddd eee'') = 8 / 10"
    by (simp add: snippet_similarity_def js_snippet_def norm_examples similarity_eval)
  have l: "snippets_of four_of_five ''P'' = [js_snippet ''1'' ''aaa bbb ccc ddd eee'']"
    by (simp add: snippets_of_def four_of_five_def js_snippet_def)
  have f: "findDuplicateSnippet four_of_five ''aaa bbb ccc ddd'' ''P'' = NotDuplicate"
    using e s
    by (simp add: findDuplicateSnippet_def l Let_def exact_snippet_def snippet_similarity_def)
  show ?thesis using e s l f by blast
qed

text \<open>
  Claim C7, amended. When no item of the project is an exact match, the check reports the
  first item in scan order whose similarity to the new content is strictly above the
  threshold (0.80 between normalized snippet codes, 0.85 between normalized knowledge
  answers), with \<open>matchType: 'similar'\<close> and a similarity that is the Jaccard value of
  that item times 100, rounded to the nearest integer; when every item is at or below
  the threshold it reports no duplicate.
\<close>

theorem similar_content_above_threshold:
  "((\<forall>t\<in>set (snippets_of store P). \<not> exact_snippet code t)
      \<and> find (\<lambda>t. snippet_similarity code t > 8 / 10) (snippets_of store P) = Some s
     \<longrightarrow> findDuplicateSnippet store code P
           = Similar (Math_round (snippet_similarity code s * 100)) s)
   \<and> ((\<forall>t\<in>set (snippets_of store P). \<not> exact_snippet code t \<and> snippet_similarity code t \<le> 8 / 10)
     \<longrightarrow> findDuplicateSnippet store code P = NotDuplicate)
   \<and> ((\<forall>t\<in>set (knowledge_of kstore P). \<not> exact_knowledge question answer t)
      \<and> find (\<lambda>t. answer_similarity answer t > 85 / 100) (knowledge_of kstore P) = Some k
     \<longrightarrow> findDuplicateKnowledge kstore question answer P
           = Similar (Math_round (answer_similarity answer k * 100)) k)
   \<and> ((\<forall>t\<in>set (knowledge_of kstore P).
          \<not> exact_knowledge question answer t \<and> answer_similarity answer t \<le> 85 / 100)
     \<longrightarrow> findDuplicateKnowledge kstore question answer P = NotDuplicate)"
proof -
  have rs: "findDuplicateSnippet store code P =
     (case find (snippet_hit code) (snippets_of store P) of
        None \<Rightarrow> NotDuplicate
      | Some t \<Rightarrow> if exact_snippet code t then Exact t
                  else Similar (Math_round (snippet_similarity code t * 100)) t)"
    by (simp add: findDuplicateSnippet_def Let_def scan_snippets_find)
  have rk: "findDuplicateKnowledge kstore question answer P =
     (case find (knowledge_hit question answer) (knowledge_of kstore P) of
        None \<Rightarrow> NotDuplicate
      | Some t \<Rightarrow> if exact_knowledge question answer t then Exact t
                  else Similar (Math_round (answer_similarity answer t * 100)) t)"
    by (simp add: findDuplicateKnowledge_def Let_def scan_knowledge_find)
  have a: "findDuplicateSnippet store code P
           = Similar (Math_round (snippet_similarity code s * 100)) s"
    if n: "\<forall>t\<in>set (snippets_of store P). \<not> exact_snippet code t"
      and f: "find (\<lambda>t. snippet_similarity code t > 8 / 10) (snippets_of store P) = Some s"
  proof -
    have "find (snippet_hit code) (snippets_of store P) = Some s"
      unfolding snippet_hit_def by (rule find_first [OF f n])
    moreover have "\<not> exact_snippet code s"
      using f n by (auto simp: find_Some_iff)
    ultimately show ?thesis by (simp add: rs)
  qed
  have b: "findDuplicateSnippet store code P = NotDuplicate"
    if "\<forall>t\<in>set (snippets_of store P). \<not> exact_snippet code t \<and> snippet_similarity code t \<le> 8 / 10"
  proof -
    have "find (snippet_hit code) (snippets_of store P) = None"
      by (rule find_none) (use that in \<open>auto simp: snippet_hit_def\<close>)
    then show ?thesis by (simp add: rs)
  qed
  have c: "findDuplicateKnowledge kstore question answer P
           = Similar (Math_round (answer_similarity answer k * 100)) k"
    if n: "\<forall>t\<in>set (knowledge_of kstore P). \<not> exact_knowledge question answer t"
      and f: "find (\<lambda>t. answer_similarity answer t > 85 / 100) (knowledge_of kstore P) = Some k"
  proof -
    have "find (knowledge_hit question answer) (knowledge_of kstore P) = Some k"
      unfolding knowledge_hit_def by (rule find_first [OF f n])
    moreover have "\<not> exact_knowledge question answer k"
      using f n by (auto simp: find_Some_iff)
    ultimately show ?thesis by (simp add: rk)
  qed
  have d: "findDuplicateKnowledge kstore question answer P = NotDuplicate"
    if "\<forall>t\<in>set (knowledge_of kstore P).
          \<not> exact_knowledge question answer t \<and> answer_similarity answer t \<le> 85 / 100"
  proof -
    have "find (knowledge_hit question answer) (knowledge_of kstore P) = None"
      by (rule find_none) (use that in \<open>auto simp: knowledge_hit_def\<close>)
    then show ?thesis by (simp add: rk)
  qed
  show ?thesis using a b c d by blast
qed

theorem similar_content_above_threshold_witness:
  "findDuplicateSnippet five_of_six ''abc def ghi jkl mno'' ''P''
     = Similar 83 (js_snippet ''1'' ''abc def ghi jkl mno pqr'')
   \<and> snippet_similarity ''abc def ghi jkl mno'' (js_snippet ''1'' ''abc def ghi jkl mno pqr'') = 5 / 6
   \<and> findDuplicateKnowledge nine_of_ten ''how'' ''aaa bbb ccc ddd eee fff ggg hhh iii'' ''P''
     = Similar 90 (qa ''1'' ''how'' ''aaa bbb ccc ddd eee fff ggg hhh iii jjj'')
   \<and> answer_similarity ''aaa bbb ccc ddd eee fff ggg hhh iii''
        (qa ''1'' ''how'' ''aaa bbb ccc ddd eee fff ggg hhh iii jjj'') = 9 / 10"
proof -
  let ?s = "js_snippet ''1'' ''abc def ghi jkl mno pqr''"
  let ?k = "qa ''1'' ''how'' ''aaa bbb ccc ddd eee fff ggg hhh iii jjj''"
  have ls: "snippets_of five_of_six ''P'' = [?s]"
    by (simp add: snippets_of_def five_of_six_def js_snippet_def)
  have lk: "knowledge_of nine_of_ten ''P'' = [?k]"
    by (simp add: knowledge_of_def nine_of_ten_def qa_def)
  have es: "\<not> exact_snippet ''abc def ghi jkl mno'' ?s"
    by (simp add: exact_snippet_def js_snippet_def norm_examples hash_eval)
  have ss: "snippet_similarity ''abc def ghi jkl mno'' ?s = 5 / 6"
    by (simp add: snippet_similarity_def js_snippet_def norm_examples similarity_eval)
  have ek: "\<not> exact_knowledge ''how'' ''aaa bbb ccc ddd eee fff ggg hhh iii'' ?k"
    by (simp add: exact_knowledge_def qa_def norm_examples hash_eval)
  have sk: "answer_similarity ''aaa bbb ccc ddd eee fff ggg hhh iii'' ?k = 9 / 10"
    by (simp add: answer_similarity_def qa_def norm_examples similarity_eval)
  have r: "Math_round (5 / 6 * 100) = 83" "Math_round (9 / 10 * 100) = 90"
    by (simp_all add: Math_round_def floor_eq_iff)
  have hs: "(\<forall>t\<in>set (snippets_of five_of_six ''P''). \<not> exact_snippet ''abc def ghi jkl mno'' t)
      \<and> find (\<lambda>t. snippet_similarity ''abc def ghi jkl mno'' t > 8 / 10) (snippets_of five_of_six ''P'')
          = Some ?s"
    using es by (simp add: ls ss)
  have hk: "(\<forall>t\<in>set (knowledge_of nine_of_ten ''P'').
               \<not> exact_knowledge ''how'' ''aaa bbb ccc ddd eee fff ggg hhh iii'' t)
      \<and> find (\<lambda>t. answer_similarity ''aaa bbb ccc ddd eee fff ggg hhh iii'' t > 85 / 100)
            (knowledge_of nine_of_ten ''P'') = Some ?k"
    using ek by (simp add: lk sk)
  note th = similar_content_above_threshold [of five_of_six "''P''" "''abc def ghi jkl mno''" ?s
      nine_of_ten "''how''" "''aaa bbb ccc ddd eee fff ggg hhh iii''" ?k]
  have a: "findDuplicateSnippet five_of_six ''abc def ghi jkl mno'' ''P''
     = Similar (Math_round (snippet_similarity ''abc def ghi jkl mno'' ?s * 100)) ?s"
    using th hs by blast
  have b: "findDuplicateKnowledge nine_of_ten ''how'' ''aaa bbb ccc ddd eee fff ggg hhh iii'' ''P''
     = Similar (Math_round (answer_similarity ''aaa bbb ccc ddd eee fff ggg hhh iii'' ?k * 100)) ?k"
    using th hk by blast
  show ?thesis
    using a b r by (simp only: ss sk)
qed

section \<open>Properties of the search score\<close>










section \<open>Properties of the merge of match results\<close>

lemma map_of_map_set: "map_of (map_set m k v) = (map_of m)(k \<mapsto> v)"
  by (induction m) (auto simp: fun_eq_iff)

lemma keys_map_set:
  "map fst (map_set m k v) = (if k \<in> set (map fst m) then map fst m else map fst m @ [k])"
  by (induction m) force+

lemma distinct_map_set: "distinct (map fst m) \<Longrightarrow> distinct (map fst (map_set m k v))"
  by (simp add: keys_map_set)

lemma set_map_set:
  "(k', v') \<in> set (map_set m k v) \<Longrightarrow> (k' = k \<and> v' = v) \<or> (k', v') \<in> set m"
  by (induction m) (auto split: if_splits)

lemma key_of_merged [simp]:
  "key_of (r\<lparr>matchReasons := rs\<rparr>) = key_of r"
  "key_of (r\<lparr>relevanceScore := s\<rparr>) = key_of r"
  by (simp_all add: key_of_def)

lemma keyed_map_set: "keyed seen \<Longrightarrow> key_of v = k \<Longrightarrow> keyed (map_set seen k v)"
  unfolding keyed_def
  by (auto simp: distinct_map_set dest: set_map_set)

lemma dedup_loop_keyed: "keyed seen \<Longrightarrow> keyed (dedup_loop rs seen)"
proof (induction rs arbitrary: seen)
  case Nil
  then show ?case by simp
next
  case (Cons r rs)
  show ?case
    using Cons.prems
    by (auto simp: Let_def intro!: Cons.IH keyed_map_set split: option.splits)
qed

lemma dedup_loop_lookup:
  "map_of (dedup_loop rs seen) k
     = foldl merge_candidate (map_of seen k) (filter (\<lambda>r. key_of r = k) rs)"
proof (induction rs arbitrary: seen)
  case Nil
  then show ?case by simp
next
  case (Cons r rs)
  show ?case
  proof (cases "key_of r = k")
    case True
    then show ?thesis
      by (auto simp: Let_def Cons.IH map_of_map_set split: option.splits)
  next
    case False
    then show ?thesis
      by (auto simp: Let_def Cons.IH map_of_map_set split: option.splits)
  qed
qed

lemma merge_score:
  "\<exists>e. foldl merge_candidate (Some a) rs = Some e
       \<and> relevanceScore e = fold max (map relevanceScore rs) (relevanceScore a)"
proof (induction rs arbitrary: a)
  case Nil
  then show ?case by simp
next
  case (Cons r rs)
  show ?case
  proof (cases "relevanceScore r > relevanceScore a")
    case True
    let ?m = "r\<lparr>matchReasons := matchReasons a @ matchReasons r,
                relevanceScore := max (relevanceScore r) (relevanceScore a)\<rparr>"
    from Cons.IH [of ?m] True show ?thesis by simp
  next
    case False
    then have "max (relevanceScore r) (relevanceScore a) = relevanceScore a" by simp
    with Cons.IH [of a] False show ?thesis by simp
  qed
qed

lemma merge_score_Max:
  assumes "foldl merge_candidate None rs = Some e"
  shows "rs \<noteq> [] \<and> relevanceScore e = Max (relevanceScore ` set rs)"
proof (cases rs)
  case Nil
  with assms show ?thesis by simp
next
  case (Cons a rs')
  from merge_score [of a rs'] assms Cons
  have "relevanceScore e = fold max (map relevanceScore rs') (relevanceScore a)" by auto
  also have "\<dots> = Max (set (relevanceScore a # map relevanceScore rs'))"
    by (simp only: Max.set_eq_fold)
  finally show ?thesis using Cons by simp
qed

lemma merge_None: "foldl merge_candidate acc rs = None \<longleftrightarrow> acc = None \<and> rs = []"
proof (induction rs arbitrary: acc)
  case Nil
  then show ?case by simp
next
  case (Cons r rs)
  have "merge_candidate acc r \<noteq> None"
    by (cases acc) auto
  with Cons.IH [of "merge_candidate acc r"] show ?case by simp
qed

lemma keyed_empty: "keyed []"
  by (simp add: keyed_def)

lemma keyed_values:
  assumes "keyed seen"
  shows "map key_of (map snd seen) = map fst seen"
  using assms unfolding keyed_def by (induction seen) auto

lemma keyed_lookup:
  assumes "keyed seen" and "e \<in> set (map snd seen)"
  shows "map_of seen (key_of e) = Some e"
proof -
  from assms(2) obtain k where m: "(k, e) \<in> set seen" by auto
  with assms(1) have "key_of e = k" by (auto simp: keyed_def)
  with m assms(1) show ?thesis by (simp add: keyed_def)
qed

lemma distinct_map_sort_key: "distinct (map g (sort_key f xs)) = distinct (map g xs)"
  by (simp add: distinct_map)

lemma dedup_entries:
  assumes "e \<in> set (deduplicateAndSort results)"
  shows "foldl merge_candidate None (filter (\<lambda>r. key_of r = key_of e) results) = Some e"
proof -
  have k: "keyed (dedup_loop results [])"
    by (rule dedup_loop_keyed [OF keyed_empty])
  from assms have "e \<in> set (map snd (dedup_loop results []))"
    by (simp add: deduplicateAndSort_def)
  from keyed_lookup [OF k this] show ?thesis
    by (simp add: dedup_loop_lookup)
qed

lemma dedup_keys: "key_of ` set (deduplicateAndSort results) = key_of ` set results"
proof -
  let ?S = "dedup_loop results []"
  have k: "keyed ?S"
    by (rule dedup_loop_keyed [OF keyed_empty])
  have "key_of ` set (deduplicateAndSort results) = set (map key_of (map snd ?S))"
    by (simp add: deduplicateAndSort_def image_image)
  also have "\<dots> = fst ` set ?S"
    by (simp only: keyed_values [OF k] set_map)
  also have "\<dots> = dom (map_of ?S)"
    by (simp add: dom_map_of_conv_image_fst)
  also have "\<dots> = key_of ` set results"
  proof
    show "dom (map_of ?S) \<subseteq> key_of ` set results"
    proof
      fix x assume "x \<in> dom (map_of ?S)"
      then have "foldl merge_candidate None (filter (\<lambda>r. key_of r = x) results) \<noteq> None"
        by (auto simp: dedup_loop_lookup)
      then have "filter (\<lambda>r. key_of r = x) results \<noteq> []"
        by (simp add: merge_None)
      then show "x \<in> key_of ` set results"
        by (auto simp: filter_empty_conv)
    qed
    show "key_of ` set results \<subseteq> dom (map_of ?S)"
    proof
      fix x assume "x \<in> key_of ` set results"
      then have "filter (\<lambda>r. key_of r = x) results \<noteq> []"
        by (auto simp: filter_empty_conv)
      then have "foldl merge_candidate None (filter (\<lambda>r. key_of r = x) results) \<noteq> None"
        by (simp add: merge_None)
      then show "x \<in> dom (map_of ?S)"
        by (auto simp: dedup_loop_lookup)
    qed
  qed
  finally show ?thesis .
qed

lemma key_of_eq_iff:
  "key_of a = key_of b \<longleftrightarrow> result_type a = result_type b \<and> result_item_id a = result_item_id b"
  by (cases "result_type a"; cases "result_type b") (auto simp: key_of_def)

lemma distinct_keys_pairs:
  "distinct (map key_of xs) = distinct (map (\<lambda>r. (result_type r, result_item_id r)) xs)"
  by (simp add: distinct_map inj_on_def key_of_eq_iff)

text \<open>
  Claim C9, as stated, fails. Two candidates for the same knowledge item collide; the
  first has score 50 and the reason \<open>error\<close>, the second score 30 and the reason
  \<open>language\<close>. The merged entry is the first candidate as it was: the reasons of the
  second are dropped, not appended.
\<close>

theorem lower_score_reasons_are_dropped:
  "key_of (candidate 50 ''error'') = key_of (candidate 30 ''language'')
   \<and> deduplicateAndSort [candidate 50 ''error'', candidate 30 ''language''] = [candidate 50 ''error'']
   \<and> matchReasons (candidate 50 ''error'') = [reason ''error'']
   \<and> matchReasons (candidate 50 ''error'') @ matchReasons (candidate 30 ''language'')
        = [reason ''error'', reason ''language'']
   \<and> reason ''language'' \<noteq> reason ''error''"
  by (simp add: deduplicateAndSort_def candidate_def key_of_def reason_def Let_def)

text \<open>
  Claim C9, amended. The merged output has at most one entry per (type, id) key, has an
  entry for every key among the candidates, and is sorted by descending score. The
  score of an entry is the maximum of the scores of the candidates with its key. Each
  entry is what remains of the candidates with its key when they are taken in order and
  a candidate replaces the entry, with the entry's reasons put before its own, only if
  its score is strictly higher; a candidate with a lower or equal score is dropped with
  its reasons. For two colliding candidates: the reasons are the concatenation of both
  lists when the later candidate has the strictly higher score, and those of the earlier
  candidate alone otherwise.
\<close>

theorem merge_of_match_results:
  "distinct (map (\<lambda>r. (result_type r, result_item_id r)) (deduplicateAndSort results))
   \<and> sorted_wrt (\<lambda>a b. relevanceScore a \<ge> relevanceScore b) (deduplicateAndSort results)
   \<and> key_of ` set (deduplicateAndSort results) = key_of ` set results
   \<and> (\<forall>e\<in>set (deduplicateAndSort results).
         relevanceScore e = Max (relevanceScore ` {r \<in> set results. key_of r = key_of e}))
   \<and> (\<forall>e\<in>set (deduplicateAndSort results).
         foldl merge_candidate None (filter (\<lambda>r. key_of r = key_of e) results) = Some e)
   \<and> (key_of a = key_of b \<longrightarrow>
         deduplicateAndSort [a, b] =
           [if relevanceScore b > relevanceScore a
            then b\<lparr>matchReasons := matchReasons a @ matchReasons b\<rparr> else a])"
proof -
  let ?S = "dedup_loop results []"
  have k: "keyed ?S"
    by (rule dedup_loop_keyed [OF keyed_empty])
  have "distinct (map key_of (deduplicateAndSort results))"
    unfolding deduplicateAndSort_def distinct_map_sort_key keyed_values [OF k]
    using k by (simp add: keyed_def)
  then have d: "distinct (map (\<lambda>r. (result_type r, result_item_id r)) (deduplicateAndSort results))"
    by (simp only: distinct_keys_pairs)
  have "sorted (map (\<lambda>r. - relevanceScore r) (deduplicateAndSort results))"
    by (simp add: deduplicateAndSort_def)
  then have s: "sorted_wrt (\<lambda>a b. relevanceScore a \<ge> relevanceScore b) (deduplicateAndSort results)"
    by (simp add: sorted_map)
  have m: "\<forall>e\<in>set (deduplicateAndSort results).
         relevanceScore e = Max (relevanceScore ` {r \<in> set results. key_of r = key_of e})"
  proof
    fix e assume "e \<in> set (deduplicateAndSort results)"
    from merge_score_Max [OF dedup_entries [OF this]]
    show "relevanceScore e = Max (relevanceScore ` {r \<in> set results. key_of r = key_of e})"
      by simp
  qed
  have f: "\<forall>e\<in>set (deduplicateAndSort results).
         foldl merge_candidate None (filter (\<lambda>r. key_of r = key_of e) results) = Some e"
    using dedup_entries by blast
  have t: "deduplicateAndSort [a, b] =
           [if relevanceScore b > relevanceScore a
            then b\<lparr>matchReasons := matchReasons a @ matchReasons b\<rparr> else a]"
    if "key_of a = key_of b"
    using that by (simp add: deduplicateAndSort_def Let_def max_def)
  show ?thesis using d s dedup_keys m f t by blast
qed

text \<open>The same two candidates in the other order: the later one wins and both reasons stay.\<close>

theorem merge_of_match_results_witness:
  "key_of (candidate 30 ''language'') = key_of (candidate 50 ''error'')
   \<and> deduplicateAndSort [candidate 30 ''language'', candidate 50 ''error'']
       = [(candidate 50 ''error'')\<lparr>matchReasons := [reason ''language'', reason ''error'']\<rparr>]
   \<and> distinct (map (\<lambda>r. (result_type r, result_item_id r))
        (deduplicateAndSort [candidate 30 ''language'', candidate 50 ''error'']))"
proof -
  have k: "key_of (candidate 30 ''language'') = key_of (candidate 50 ''error'')"
    by (simp add: candidate_def key_of_def)
  have l: "relevanceScore (candidate 50 ''error'') > relevanceScore (candidate 30 ''language'')"
    by (simp add: candidate_def)
  note th = merge_of_match_results [of "[candidate 30 ''language'', candidate 50 ''error'']"
      "candidate 30 ''language''" "candidate 50 ''error''"]
  have "deduplicateAndSort [candidate 30 ''language'', candidate 50 ''error'']
       = [(candidate 50 ''error'')\<lparr>matchReasons :=
            matchReasons (candidate 30 ''language'') @ matchReasons (candidate 50 ''error'')\<rparr>]"
    using th k l by simp
  moreover have "distinct (map (\<lambda>r. (result_type r, result_item_id r))
        (deduplicateAndSort [candidate 30 ''language'', candidate 50 ''error'']))"
    using th by blast
  ultimately show ?thesis
    using k by (simp add: candidate_def)
qed

end
